theory Spec2Isabelle
  imports Main
begin

section \<open>JavaScript values\<close>

text \<open>
  The style pipeline of figtree (\<^verbatim>\<open>ai-providers.js\<close>) works on plain data: the
  style collection that the Figma client assembles from parsed JSON, and the token
  objects the normalizer builds from it. A value is JSON data or \<^verbatim>\<open>undefined\<close>.
  An object is the list of its own properties in enumeration order.

  Numbers are the integers that a double holds exactly and prints digit by digit:
  \<open>JNum n\<close> stands for a value of the program when the magnitude of \<open>n\<close> is
  below \<open>2^53\<close>. Fractional doubles, \<^verbatim>\<open>NaN\<close>, the infinities and the doubles
  of larger magnitude are outside the model: for such an \<open>n\<close> the text that
  \<open>int_to_string\<close> writes is not the platform's, which rounds to the shortest
  digits that give the double back and switches to exponent form from \<open>10^21\<close>
  on. How a number prints bears on the size of a serialization only. A string is
  the list of its code units, restricted to code units below 256.
\<close>

datatype jsval =
    JUndefined
  | JNull
  | JBool bool
  | JNum int
  | JStr string
  | JArr "jsval list"
  | JObj "(string \<times> jsval) list"

datatype error = TypeError | Unmodelled

text \<open>\<^verbatim>\<open>Boolean(v)\<close>: the test behind \<^verbatim>\<open>if (v)\<close>, \<^verbatim>\<open>!v\<close>, \<^verbatim>\<open>a || b\<close>.\<close>

fun truthy :: "jsval \<Rightarrow> bool" where
  "truthy JUndefined = False"
| "truthy JNull = False"
| "truthy (JBool b) = b"
| "truthy (JNum n) = (n \<noteq> 0)"
| "truthy (JStr s) = (s \<noteq> [])"
| "truthy (JArr xs) = True"
| "truthy (JObj kvs) = True"

text \<open>\<^verbatim>\<open>a || b\<close>\<close>

definition js_or :: "jsval \<Rightarrow> jsval \<Rightarrow> jsval" where
  "js_or a b = (if truthy a then a else b)"

text \<open>The values on which a property read throws and \<^verbatim>\<open>?.\<close> short-circuits.\<close>

fun nullish :: "jsval \<Rightarrow> bool" where
  "nullish JUndefined = True"
| "nullish JNull = True"
| "nullish v = False"

text \<open>\<^verbatim>\<open>Array.isArray(v)\<close>\<close>

fun is_array :: "jsval \<Rightarrow> bool" where
  "is_array (JArr xs) = True"
| "is_array v = False"

subsection \<open>Property keys\<close>

definition is_digit :: "char \<Rightarrow> bool" where
  "is_digit c = (48 \<le> (of_char c :: nat) \<and> (of_char c :: nat) \<le> 57)"

definition digits_value :: "string \<Rightarrow> nat" where
  "digits_value s = foldl (\<lambda>n c. 10 * n + ((of_char c :: nat) - 48)) 0 s"

text \<open>
  An array index is a canonical numeric string below \<open>2^32 - 1\<close>: such keys come
  first, in ascending order, when the properties of an object are enumerated.
\<close>

definition array_index :: "string \<Rightarrow> nat option" where
  "array_index k =
     (if k = [] then None
      else if \<not> list_all is_digit k then None
      else if hd k = CHR ''0'' \<and> tl k \<noteq> [] then None
      else if digits_value k < 4294967295 then Some (digits_value k)
      else None)"

subsection \<open>Reading and writing properties\<close>

text \<open>
  \<^verbatim>\<open>v[k]\<close> for a value that is neither \<^verbatim>\<open>undefined\<close> nor \<^verbatim>\<open>null\<close>:
  the own properties of an object, the length and the elements of an array or a
  string. Members inherited from a prototype are not data and are not modelled
  here. Of the names the program reads, an array inherits two as methods:
  \<^verbatim>\<open>fill\<close>, which is treated where it is read (\<open>styleList\<close>), and
  \<^verbatim>\<open>values\<close>, read as \<^verbatim>\<open>style.values\<close> and from there on only probed
  for data properties that a function does not have, so that \<^verbatim>\<open>undefined\<close>
  stands for it without a difference.
\<close>

fun get_prop :: "jsval \<Rightarrow> string \<Rightarrow> jsval" where
  "get_prop (JObj kvs) k = (case map_of kvs k of Some v \<Rightarrow> v | None \<Rightarrow> JUndefined)"
| "get_prop (JArr xs) k =
     (if k = ''length'' then JNum (int (length xs))
      else case array_index k of
             Some i \<Rightarrow> (if i < length xs then xs ! i else JUndefined)
           | None \<Rightarrow> JUndefined)"
| "get_prop (JStr s) k =
     (if k = ''length'' then JNum (int (length s))
      else case array_index k of
             Some i \<Rightarrow> (if i < length s then JStr [s ! i] else JUndefined)
           | None \<Rightarrow> JUndefined)"
| "get_prop v k = JUndefined"

text \<open>\<^verbatim>\<open>v?.k\<close>\<close>

definition opt_prop :: "jsval \<Rightarrow> string \<Rightarrow> jsval" where
  "opt_prop v k = (if nullish v then JUndefined else get_prop v k)"

text \<open>
  \<^verbatim>\<open>obj[k] = v\<close> on the property list of an ordinary object: an existing key keeps
  its place, a new array index goes among the indices in ascending order, any
  other new key goes last.
\<close>

fun update_key :: "string \<Rightarrow> jsval \<Rightarrow> (string \<times> jsval) list \<Rightarrow> (string \<times> jsval) list" where
  "update_key k v [] = []"
| "update_key k v (p # ps) = (if fst p = k then (k, v) # ps else p # update_key k v ps)"

fun insert_index :: "nat \<Rightarrow> string \<Rightarrow> jsval \<Rightarrow> (string \<times> jsval) list \<Rightarrow> (string \<times> jsval) list" where
  "insert_index i k v [] = [(k, v)]"
| "insert_index i k v (p # ps) =
     (case array_index (fst p) of
        Some j \<Rightarrow> (if j < i then p # insert_index i k v ps else (k, v) # p # ps)
      | None \<Rightarrow> (k, v) # p # ps)"

definition set_key :: "string \<Rightarrow> jsval \<Rightarrow> (string \<times> jsval) list \<Rightarrow> (string \<times> jsval) list" where
  "set_key k v ps =
     (if k \<in> set (map fst ps) then update_key k v ps
      else case array_index k of
             Some i \<Rightarrow> insert_index i k v ps
           | None \<Rightarrow> ps @ [(k, v)])"

section \<open>JSON.stringify\<close>

definition dquote :: char where
  "dquote = CHR 0x22"

definition backslash :: char where
  "backslash = CHR 0x5C"

definition digit_char :: "nat \<Rightarrow> char" where
  "digit_char d = ''0123456789abcdef'' ! d"

fun num_to_string :: "nat \<Rightarrow> string" where
  "num_to_string n =
     (if n < 10 then [digit_char n]
      else num_to_string (n div 10) @ [digit_char (n mod 10)])"

declare num_to_string.simps [simp del]

text \<open>
  \<^verbatim>\<open>Number.prototype.toString\<close> on an integer of magnitude below \<open>2^53\<close>: its
  decimal digits, after a minus sign when it is negative.
\<close>

definition int_to_string :: "int \<Rightarrow> string" where
  "int_to_string i = (if i < 0 then CHR ''-'' # num_to_string (nat (- i)) else num_to_string (nat i))"

text \<open>The escapes of \<^verbatim>\<open>QuoteJSONString\<close>.\<close>

definition quote_char :: "char \<Rightarrow> string" where
  "quote_char c =
     (let n = (of_char c :: nat) in
      if c = dquote then [backslash, dquote]
      else if c = backslash then [backslash, backslash]
      else if n = 8 then [backslash, CHR ''b'']
      else if n = 9 then [backslash, CHR ''t'']
      else if n = 10 then [backslash, CHR ''n'']
      else if n = 12 then [backslash, CHR ''f'']
      else if n = 13 then [backslash, CHR ''r'']
      else if n < 32 then [backslash, CHR ''u'', CHR ''0'', CHR ''0'', digit_char (n div 16), digit_char (n mod 16)]
      else [c])"

definition quote :: "string \<Rightarrow> string" where
  "quote s = dquote # concat (map quote_char s) @ [dquote]"

text \<open>\<^verbatim>\<open>Array.prototype.join\<close> on strings.\<close>

fun join :: "string \<Rightarrow> string list \<Rightarrow> string" where
  "join sep [] = []"
| "join sep [x] = x"
| "join sep (x # y # ys) = x @ sep @ join sep (y # ys)"

text \<open>
  \<^verbatim>\<open>JSON.stringify(v)\<close>. A property whose value is \<^verbatim>\<open>undefined\<close> is left out of
  an object, an \<^verbatim>\<open>undefined\<close> element of an array is written \<^verbatim>\<open>null\<close>. (At top
  level \<^verbatim>\<open>JSON.stringify(undefined)\<close> is not a string; the program only
  serializes objects.)
\<close>

fun JSON_stringify :: "jsval \<Rightarrow> string" where
  "JSON_stringify JUndefined = ''null''"
| "JSON_stringify JNull = ''null''"
| "JSON_stringify (JBool b) = (if b then ''true'' else ''false'')"
| "JSON_stringify (JNum n) = int_to_string n"
| "JSON_stringify (JStr s) = quote s"
| "JSON_stringify (JArr xs) = ''['' @ join '','' (map JSON_stringify xs) @ '']''"
| "JSON_stringify (JObj kvs) =
     ''{'' @ join '','' (map (\<lambda>(k, v). quote k @ '':'' @ JSON_stringify v)
                          (filter (\<lambda>(k, v). v \<noteq> JUndefined) kvs)) @ ''}''"

section \<open>Compressed style sets\<close>

text \<open>
  The object built by \<^verbatim>\<open>compressStylesForAI\<close> and the chunks derived from it by
  \<^verbatim>\<open>chunkStyles\<close>: four token arrays and a summary. The working chunk of
  \<^verbatim>\<open>chunkStyles\<close> has no summary until it is finalized; the summary of the
  compressed set carries \<^verbatim>\<open>originalFileSize\<close>, that of a chunk
  \<^verbatim>\<open>chunkNumber\<close>.
\<close>

record chunk_summary =
  totalColors :: nat
  totalTypography :: nat
  totalEffects :: nat
  totalSpacing :: nat
  originalFileSize :: "nat option"
  chunkNumber :: "nat option"

record styleset =
  colors :: "jsval list"
  typography :: "jsval list"
  effects :: "jsval list"
  spacing :: "jsval list"
  summary :: "chunk_summary option"

definition summary_to_js :: "chunk_summary \<Rightarrow> jsval" where
  "summary_to_js s =
     JObj ([(''totalColors'', JNum (int (totalColors s))),
            (''totalTypography'', JNum (int (totalTypography s))),
            (''totalEffects'', JNum (int (totalEffects s))),
            (''totalSpacing'', JNum (int (totalSpacing s)))]
           @ (case originalFileSize s of None \<Rightarrow> [] | Some n \<Rightarrow> [(''originalFileSize'', JNum (int n))])
           @ (case chunkNumber s of None \<Rightarrow> [] | Some n \<Rightarrow> [(''chunkNumber'', JNum (int n))]))"

definition styleset_to_js :: "styleset \<Rightarrow> jsval" where
  "styleset_to_js c =
     JObj ([(''colors'', JArr (colors c)),
            (''typography'', JArr (typography c)),
            (''effects'', JArr (effects c)),
            (''spacing'', JArr (spacing c))]
           @ (case summary c of None \<Rightarrow> [] | Some s \<Rightarrow> [(''summary'', summary_to_js s)]))"

section \<open>Token estimator and chunk planner\<close>

text \<open>\<^verbatim>\<open>countTokens(text) = Math.ceil(text.length / 4)\<close>\<close>

definition countTokens :: "string \<Rightarrow> nat" where
  "countTokens text = (length text + 3) div 4"

text \<open>
  The token budget is an integer number of tokens. The estimate is an integer, so
  a fractional budget compares with it as its floor does.
\<close>

definition shouldChunkStyles :: "styleset \<Rightarrow> int \<Rightarrow> bool" where
  "shouldChunkStyles compressedStyles maxTokens =
     (int (countTokens (JSON_stringify (styleset_to_js compressedStyles))) > maxTokens)"

datatype category = Colors | Typography | Effects | Spacing

definition categories :: "category list" where
  "categories = [Colors, Typography, Effects, Spacing]"

fun items_of :: "category \<Rightarrow> styleset \<Rightarrow> jsval list" where
  "items_of Colors c = colors c"
| "items_of Typography c = typography c"
| "items_of Effects c = effects c"
| "items_of Spacing c = spacing c"

fun set_items :: "category \<Rightarrow> jsval list \<Rightarrow> styleset \<Rightarrow> styleset" where
  "set_items Colors xs c = c\<lparr>colors := xs\<rparr>"
| "set_items Typography xs c = c\<lparr>typography := xs\<rparr>"
| "set_items Effects xs c = c\<lparr>effects := xs\<rparr>"
| "set_items Spacing xs c = c\<lparr>spacing := xs\<rparr>"

definition emptyChunk :: styleset where
  "emptyChunk = \<lparr>colors = [], typography = [], effects = [], spacing = [], summary = None\<rparr>"

text \<open>\<^verbatim>\<open>currentChunk.summary = {...}; chunks.push(currentChunk)\<close>\<close>

definition finalizeChunk :: "styleset list \<Rightarrow> styleset \<Rightarrow> styleset list" where
  "finalizeChunk chunks currentChunk =
     chunks @ [currentChunk\<lparr>summary := Some
        \<lparr>totalColors = length (colors currentChunk),
         totalTypography = length (typography currentChunk),
         totalEffects = length (effects currentChunk),
         totalSpacing = length (spacing currentChunk),
         originalFileSize = None,
         chunkNumber = Some (length chunks + 1)\<rparr>\<rparr>]"

text \<open>
  The body of the inner loop: push the item, measure the whole working chunk, and
  when it is over the budget pop the item again, save the chunk and start a new
  one with the item.
\<close>

definition addItem :: "int \<Rightarrow> category \<Rightarrow> styleset list \<times> styleset \<Rightarrow> jsval \<Rightarrow> styleset list \<times> styleset" where
  "addItem maxTokensPerChunk cat st item =
     (case st of (chunks, currentChunk) \<Rightarrow>
        let pushed = set_items cat (items_of cat currentChunk @ [item]) currentChunk in
        if int (countTokens (JSON_stringify (styleset_to_js pushed))) > maxTokensPerChunk
        then (finalizeChunk chunks currentChunk, set_items cat [item] emptyChunk)
        else (chunks, pushed))"

definition addCategory :: "int \<Rightarrow> styleset \<Rightarrow> styleset list \<times> styleset \<Rightarrow> category \<Rightarrow> styleset list \<times> styleset" where
  "addCategory maxTokensPerChunk compressed st cat =
     foldl (addItem maxTokensPerChunk cat) st (items_of cat compressed)"

text \<open>\<^verbatim>\<open>Object.values(currentChunk).some((arr) => arr.length > 0)\<close>\<close>

definition hasItems :: "styleset \<Rightarrow> bool" where
  "hasItems c = list_ex (\<lambda>cat. items_of cat c \<noteq> []) categories"

text \<open>\<^verbatim>\<open>chunkStyles\<close> from the compressed set on.\<close>

definition planChunks :: "styleset \<Rightarrow> int \<Rightarrow> styleset list" where
  "planChunks compressed maxTokensPerChunk =
     (if \<not> shouldChunkStyles compressed maxTokensPerChunk then [compressed]
      else case foldl (addCategory maxTokensPerChunk compressed) ([], emptyChunk) categories of
             (chunks, currentChunk) \<Rightarrow>
               if hasItems currentChunk then finalizeChunk chunks currentChunk else chunks)"

section \<open>Style normalizer\<close>

text \<open>
  \<^verbatim>\<open>compressStylesForAI\<close>. A token under construction is the property list of
  the object literal; \<^verbatim>\<open>if (v) obj.k = v\<close> and
  \<^verbatim>\<open>if (v !== undefined) obj.k = v\<close> are the two guarded assignments the
  function is made of.
\<close>

definition put_if_truthy :: "string \<Rightarrow> jsval \<Rightarrow> (string \<times> jsval) list \<Rightarrow> (string \<times> jsval) list" where
  "put_if_truthy k v ps = (if truthy v then set_key k v ps else ps)"

definition put_if_defined :: "string \<Rightarrow> jsval \<Rightarrow> (string \<times> jsval) list \<Rightarrow> (string \<times> jsval) list" where
  "put_if_defined k v ps = (if v = JUndefined then ps else set_key k v ps)"

text \<open>
  \<^verbatim>\<open>xs.map(f)\<close> for a callback that may throw: the first exception ends the
  whole call.
\<close>

fun map_throwing :: "('a \<Rightarrow> error + 'b) \<Rightarrow> 'a list \<Rightarrow> error + 'b list" where
  "map_throwing f [] = Inr []"
| "map_throwing f (x # xs) =
     (case f x of
        Inl e \<Rightarrow> Inl e
      | Inr y \<Rightarrow> (case map_throwing f xs of Inl e \<Rightarrow> Inl e | Inr ys \<Rightarrow> Inr (y # ys)))"

text \<open>
  \<^verbatim>\<open>styles.styles?.fill\<close> and its siblings, as the guard
  \<^verbatim>\<open>if (styles.styles?.kind)\<close> and the receiver of \<^verbatim>\<open>.map\<close> see it:
  \<open>None\<close> when the value is falsy, the elements when it is an array, and a
  \<^verbatim>\<open>TypeError\<close> when \<^verbatim>\<open>styles\<close> is \<^verbatim>\<open>undefined\<close> or \<^verbatim>\<open>null\<close> or
  the value is truthy without being an array (it has no callable \<^verbatim>\<open>map\<close>).
  When \<^verbatim>\<open>styles.styles\<close> is itself an array, \<^verbatim>\<open>styles.styles.fill\<close> is the
  method \<^verbatim>\<open>Array.prototype.fill\<close>, a truthy function without \<^verbatim>\<open>map\<close>.
\<close>

definition styleList :: "jsval \<Rightarrow> string \<Rightarrow> error + jsval list option" where
  "styleList styles kind =
     (if nullish styles then Inl TypeError
      else
        let group = get_prop styles ''styles'' in
        if is_array group \<and> kind = ''fill'' then Inl TypeError
        else
          case opt_prop group kind of
            JArr ys \<Rightarrow> Inr (Some ys)
          | v \<Rightarrow> (if truthy v then Inl TypeError else Inr None))"

subsection \<open>Fill styles\<close>

text \<open>
  \<^verbatim>\<open>v?.startsWith(p)\<close>: \<^verbatim>\<open>undefined\<close> (falsy) on \<^verbatim>\<open>undefined\<close> and
  \<^verbatim>\<open>null\<close>, the prefix test on a string, and a \<^verbatim>\<open>TypeError\<close> on any other
  value, which has no callable \<^verbatim>\<open>startsWith\<close>.
\<close>

fun startsWith_opt :: "jsval \<Rightarrow> string \<Rightarrow> error + bool" where
  "startsWith_opt JUndefined p = Inr False"
| "startsWith_opt JNull p = Inr False"
| "startsWith_opt (JStr s) p = Inr (take (length p) s = p)"
| "startsWith_opt v p = Inl TypeError"

text \<open>The blocks of the fill callback, each a guarded run of assignments.\<close>

definition commonPaintFields :: "jsval \<Rightarrow> (string \<times> jsval) list \<Rightarrow> (string \<times> jsval) list" where
  "commonPaintFields values paint =
     (let paint = put_if_defined ''opacity'' (opt_prop values ''opacity'') paint;
          paint = put_if_truthy ''blendMode'' (opt_prop values ''blendMode'') paint
      in paint)"

definition solidFields :: "jsval \<Rightarrow> (string \<times> jsval) list \<Rightarrow> (string \<times> jsval) list" where
  "solidFields values paint =
     (if opt_prop values ''type'' = JStr ''SOLID'' then
        let paint = put_if_truthy ''color'' (opt_prop values ''color'') paint;
            paint = put_if_truthy ''hex'' (opt_prop values ''hex'') paint;
            paint = put_if_truthy ''css'' (opt_prop values ''css'') paint
        in paint
      else paint)"

definition gradientFields :: "bool \<Rightarrow> jsval \<Rightarrow> (string \<times> jsval) list \<Rightarrow> (string \<times> jsval) list" where
  "gradientFields isGradient values paint =
     (if isGradient then
        let paint = put_if_truthy ''gradientHandlePositions''
                      (opt_prop values ''gradientHandlePositions'') paint;
            paint = put_if_truthy ''gradientStops'' (opt_prop values ''gradientStops'') paint;
            paint = put_if_truthy ''gradient'' (opt_prop values ''gradient'') paint
        in paint
      else paint)"

definition imageFields :: "jsval \<Rightarrow> (string \<times> jsval) list \<Rightarrow> (string \<times> jsval) list" where
  "imageFields values paint =
     (if opt_prop values ''type'' = JStr ''IMAGE'' then
        let paint = put_if_truthy ''scaleMode'' (opt_prop values ''scaleMode'') paint;
            paint = put_if_truthy ''imageTransform'' (opt_prop values ''imageTransform'') paint;
            paint = put_if_defined ''scalingFactor'' (opt_prop values ''scalingFactor'') paint;
            paint = put_if_defined ''rotation'' (opt_prop values ''rotation'') paint;
            paint = put_if_truthy ''imageRef'' (opt_prop values ''imageRef'') paint;
            paint = put_if_truthy ''filters'' (opt_prop values ''filters'') paint;
            paint = put_if_truthy ''gifRef'' (opt_prop values ''gifRef'') paint
        in paint
      else paint)"

definition patternFields :: "jsval \<Rightarrow> (string \<times> jsval) list \<Rightarrow> (string \<times> jsval) list" where
  "patternFields values paint =
     (if opt_prop values ''type'' = JStr ''PATTERN'' then
        let paint = put_if_truthy ''sourceNodeId'' (opt_prop values ''sourceNodeId'') paint;
            paint = put_if_truthy ''tileType'' (opt_prop values ''tileType'') paint;
            paint = put_if_defined ''scalingFactor'' (opt_prop values ''scalingFactor'') paint;
            paint = put_if_truthy ''spacing'' (opt_prop values ''spacing'') paint;
            paint = put_if_truthy ''horizontalAlignment'' (opt_prop values ''horizontalAlignment'') paint;
            paint = put_if_truthy ''verticalAlignment'' (opt_prop values ''verticalAlignment'') paint
        in paint
      else paint)"

text \<open>
  \<^verbatim>\<open>if (!paint.color && !paint.gradientStops && !paint.imageRef)\<close>: the fallback
  to any available color representation.
\<close>

definition fallbackFields :: "jsval \<Rightarrow> (string \<times> jsval) list \<Rightarrow> (string \<times> jsval) list" where
  "fallbackFields values paint =
     (if truthy (get_prop (JObj paint) ''color'') then paint
      else if truthy (get_prop (JObj paint) ''gradientStops'') then paint
      else if truthy (get_prop (JObj paint) ''imageRef'') then paint
      else
        let paint = put_if_truthy ''fallbackHex'' (opt_prop values ''hex'') paint;
            paint = put_if_truthy ''fallbackCss'' (opt_prop values ''css'') paint
        in paint)"

definition paintOfStyle :: "jsval \<Rightarrow> error + jsval" where
  "paintOfStyle style =
     (if nullish style then Inl TypeError
      else
        let values = get_prop style ''values'';
            ty = opt_prop values ''type'';
            paint = [(''name'', get_prop style ''name''),
                     (''type'', js_or ty (JStr ''unknown''))];
            paint = commonPaintFields values paint;
            paint = solidFields values paint
        in
        case startsWith_opt ty ''GRADIENT_'' of
          Inl e \<Rightarrow> Inl e
        | Inr isGradient \<Rightarrow>
            let paint = gradientFields isGradient values paint;
                paint = imageFields values paint;
                paint = patternFields values paint;
                paint = fallbackFields values paint
            in Inr (JObj paint))"

text \<open>
  The filter on paints:
  \<^verbatim>\<open>paint.type !== 'unknown' || paint.fallbackHex || paint.fallbackCss\<close>
\<close>

definition keepPaint :: "jsval \<Rightarrow> bool" where
  "keepPaint paint =
     (if get_prop paint ''type'' = JStr ''unknown''
      then truthy (js_or (get_prop paint ''fallbackHex'') (get_prop paint ''fallbackCss''))
      else True)"

subsection \<open>Text styles\<close>

definition typographyOfStyle :: "jsval \<Rightarrow> error + jsval" where
  "typographyOfStyle style =
     (if nullish style then Inl TypeError
      else
        let values = get_prop style ''values'' in
        Inr (JObj
          [(''name'', get_prop style ''name''),
           (''fontSize'', js_or (opt_prop values ''fontSize'') (JNum 16)),
           (''fontFamily'', js_or (opt_prop values ''fontFamily'') (JStr ''system'')),
           (''fontWeight'', js_or (opt_prop values ''fontWeight'') (JStr ''normal'')),
           (''lineHeight'', js_or (opt_prop values ''lineHeight'') (JStr ''normal'')),
           (''letterSpacing'', js_or (opt_prop values ''letterSpacing'') (JStr ''normal''))]))"

subsection \<open>Effect styles\<close>

text \<open>The blocks of the effect callback, each a guarded run of assignments.\<close>

definition commonEffectFields :: "jsval \<Rightarrow> (string \<times> jsval) list \<Rightarrow> (string \<times> jsval) list" where
  "commonEffectFields effectData effect =
     (let effect = put_if_defined ''radius'' (get_prop effectData ''radius'') effect;
          effect = put_if_truthy ''blendMode'' (get_prop effectData ''blendMode'') effect;
          effect = put_if_defined ''visible'' (get_prop effectData ''visible'') effect
      in effect)"

definition shadowFields :: "jsval \<Rightarrow> (string \<times> jsval) list \<Rightarrow> (string \<times> jsval) list" where
  "shadowFields effectData effect =
     (if get_prop effectData ''type'' = JStr ''INNER_SHADOW''
         \<or> get_prop effectData ''type'' = JStr ''DROP_SHADOW'' then
        let effect = put_if_truthy ''color'' (get_prop effectData ''color'') effect;
            effect = put_if_truthy ''offset'' (get_prop effectData ''offset'') effect;
            effect = put_if_defined ''spread'' (get_prop effectData ''spread'') effect;
            effect = put_if_defined ''showShadowBehindNode''
                       (get_prop effectData ''showShadowBehindNode'') effect
        in effect
      else effect)"

definition blurFields :: "jsval \<Rightarrow> (string \<times> jsval) list \<Rightarrow> (string \<times> jsval) list" where
  "blurFields effectData effect =
     (if get_prop effectData ''type'' = JStr ''LAYER_BLUR''
         \<or> get_prop effectData ''type'' = JStr ''BACKGROUND_BLUR'' then
        let effect = put_if_truthy ''blurType'' (get_prop effectData ''blurType'') effect;
            effect = put_if_defined ''startRadius'' (get_prop effectData ''startRadius'') effect;
            effect = put_if_truthy ''startOffset'' (get_prop effectData ''startOffset'') effect;
            effect = put_if_truthy ''endOffset'' (get_prop effectData ''endOffset'') effect
        in effect
      else effect)"

definition noiseFields :: "jsval \<Rightarrow> (string \<times> jsval) list \<Rightarrow> (string \<times> jsval) list" where
  "noiseFields effectData effect =
     (if get_prop effectData ''type'' = JStr ''NOISE'' then
        let effect = put_if_defined ''noiseSize'' (get_prop effectData ''noiseSize'') effect;
            effect = put_if_truthy ''noiseType'' (get_prop effectData ''noiseType'') effect;
            effect = put_if_defined ''density'' (get_prop effectData ''density'') effect;
            effect = put_if_truthy ''secondaryColor'' (get_prop effectData ''secondaryColor'') effect;
            effect = put_if_defined ''opacity'' (get_prop effectData ''opacity'') effect
        in effect
      else effect)"

definition textureFields :: "jsval \<Rightarrow> (string \<times> jsval) list \<Rightarrow> (string \<times> jsval) list" where
  "textureFields effectData effect =
     (if get_prop effectData ''type'' = JStr ''TEXTURE'' then
        let effect = put_if_defined ''noiseSize'' (get_prop effectData ''noiseSize'') effect;
            effect = put_if_defined ''clipToShape'' (get_prop effectData ''clipToShape'') effect
        in effect
      else effect)"

text \<open>The part of an effect token that is read off the first effect.\<close>

definition effectFields :: "jsval \<Rightarrow> jsval \<Rightarrow> (string \<times> jsval) list" where
  "effectFields name effectData =
     (let effect = [(''name'', name),
                    (''type'', js_or (get_prop effectData ''type'') (JStr ''unknown''))];
          effect = commonEffectFields effectData effect;
          effect = shadowFields effectData effect;
          effect = blurFields effectData effect;
          effect = noiseFields effectData effect;
          effect = textureFields effectData effect
      in effect)"

text \<open>
  The callback of the effect map: \<open>None\<close> is its \<^verbatim>\<open>null\<close>, returned when
  \<^verbatim>\<open>style.values?.effects\<close> is falsy, not an array, or empty.
\<close>

definition effectOfStyle :: "jsval \<Rightarrow> error + jsval option" where
  "effectOfStyle style =
     (if nullish style then Inl TypeError
      else
        case opt_prop (get_prop style ''values'') ''effects'' of
          JArr [] \<Rightarrow> Inr None
        | JArr (effectData # others) \<Rightarrow>
            if nullish effectData then Inl TypeError
            else
              let effect = effectFields (get_prop style ''name'') effectData;
                  effect = (if length (effectData # others) > 1
                            then set_key ''allEffects'' (JArr (effectData # others)) effect
                            else effect)
              in Inr (Some (JObj effect))
        | _ \<Rightarrow> Inr None)"

text \<open>\<^verbatim>\<open>effect !== null && effect.type !== 'unknown'\<close>\<close>

fun keepEffect :: "jsval option \<Rightarrow> bool" where
  "keepEffect None = False"
| "keepEffect (Some effect) = (get_prop effect ''type'' \<noteq> JStr ''unknown'')"

subsection \<open>Grid styles\<close>

text \<open>
  \<^verbatim>\<open>v > 0\<close> for the value read as \<^verbatim>\<open>grids.length\<close>: \<^verbatim>\<open>undefined\<close> is
  \<^verbatim>\<open>NaN\<close>, \<^verbatim>\<open>null\<close> is 0, a boolean is 0 or 1. A string, array or object
  operand (possible only as the own \<^verbatim>\<open>length\<close> property of an object found
  where the grid array should be) would be converted through its text to a
  double: that conversion is outside the integer model and is reported as such.
\<close>

fun js_gt_zero :: "jsval \<Rightarrow> error + bool" where
  "js_gt_zero JUndefined = Inr False"
| "js_gt_zero JNull = Inr False"
| "js_gt_zero (JBool b) = Inr b"
| "js_gt_zero (JNum n) = Inr (n > 0)"
| "js_gt_zero v = Inl Unmodelled"

definition gridFields :: "jsval \<Rightarrow> (string \<times> jsval) list \<Rightarrow> (string \<times> jsval) list" where
  "gridFields gridData grid =
     (let grid = put_if_truthy ''pattern'' (get_prop gridData ''pattern'') grid;
          grid = put_if_defined ''sectionSize'' (get_prop gridData ''sectionSize'') grid;
          grid = put_if_defined ''gutterSize'' (get_prop gridData ''gutterSize'') grid;
          grid = put_if_defined ''offset'' (get_prop gridData ''offset'') grid;
          grid = put_if_defined ''count'' (get_prop gridData ''count'') grid;
          grid = put_if_truthy ''alignment'' (get_prop gridData ''alignment'') grid;
          grid = put_if_truthy ''color'' (get_prop gridData ''color'') grid
      in grid)"

definition gridOfStyle :: "jsval \<Rightarrow> error + jsval" where
  "gridOfStyle style =
     (if nullish style then Inl TypeError
      else
        let grid = [(''name'', get_prop style ''name''), (''type'', JStr ''grid'')];
            grids = opt_prop (get_prop style ''values'') ''grids''
        in
        if \<not> truthy grids then Inr (JObj grid)
        else
          case js_gt_zero (get_prop grids ''length'') of
            Inl e \<Rightarrow> Inl e
          | Inr False \<Rightarrow> Inr (JObj grid)
          | Inr True \<Rightarrow>
              let gridData = get_prop grids ''0'' in
              if nullish gridData then Inl TypeError
              else Inr (JObj (gridFields gridData grid)))"

text \<open>\<^verbatim>\<open>grid.pattern || grid.sectionSize !== undefined\<close>\<close>

definition keepGrid :: "jsval \<Rightarrow> bool" where
  "keepGrid grid =
     (if truthy (get_prop grid ''pattern'') then True
      else get_prop grid ''sectionSize'' \<noteq> JUndefined)"

subsection \<open>The compressed set\<close>

text \<open>
  One section of \<^verbatim>\<open>compressStylesForAI\<close>: when the style list is there, map it
  and filter the result; otherwise the array stays empty.
\<close>

definition compressSection ::
  "jsval \<Rightarrow> string \<Rightarrow> (jsval \<Rightarrow> error + 'a) \<Rightarrow> ('a list \<Rightarrow> jsval list) \<Rightarrow> error + jsval list" where
  "compressSection styles kind f select =
     (case styleList styles kind of
        Inl e \<Rightarrow> Inl e
      | Inr None \<Rightarrow> Inr []
      | Inr (Some xs) \<Rightarrow>
          (case map_throwing f xs of Inl e \<Rightarrow> Inl e | Inr ys \<Rightarrow> Inr (select ys)))"

definition compressStylesForAI :: "jsval \<Rightarrow> error + styleset" where
  "compressStylesForAI styles =
     (case compressSection styles ''fill'' paintOfStyle (filter keepPaint) of
        Inl e \<Rightarrow> Inl e
      | Inr cs \<Rightarrow>
     (case compressSection styles ''text'' typographyOfStyle (\<lambda>ts. ts) of
        Inl e \<Rightarrow> Inl e
      | Inr ts \<Rightarrow>
     (case compressSection styles ''effect'' effectOfStyle (\<lambda>es. map the (filter keepEffect es)) of
        Inl e \<Rightarrow> Inl e
      | Inr es \<Rightarrow>
     (case compressSection styles ''grid'' gridOfStyle (filter keepGrid) of
        Inl e \<Rightarrow> Inl e
      | Inr gs \<Rightarrow>
          Inr \<lparr>colors = cs, typography = ts, effects = es, spacing = gs,
               summary = Some
                 \<lparr>totalColors = length cs,
                  totalTypography = length ts,
                  totalEffects = length es,
                  totalSpacing = length gs,
                  originalFileSize = Some (length (JSON_stringify styles)),
                  chunkNumber = None\<rparr>\<rparr>))))"

text \<open>\<^verbatim>\<open>chunkStyles(styles, maxTokensPerChunk)\<close>\<close>

definition chunkStyles :: "jsval \<Rightarrow> int \<Rightarrow> error + styleset list" where
  "chunkStyles styles maxTokensPerChunk =
     (case compressStylesForAI styles of
        Inl e \<Rightarrow> Inl e
      | Inr compressed \<Rightarrow> Inr (planChunks compressed maxTokensPerChunk))"

section \<open>JSON.stringify with indentation\<close>

definition newline :: char where
  "newline = CHR 0x0A"

definition spaces :: "nat \<Rightarrow> string" where
  "spaces n = replicate n CHR '' ''"

text \<open>
  \<^verbatim>\<open>JSON.stringify(v, null, 2)\<close>, at the current indentation: members one per
  line, two more spaces per level, \<^verbatim>\<open>{}\<close> and \<^verbatim>\<open>[]\<close> when there is nothing to
  write.
\<close>

fun stringify_indented :: "nat \<Rightarrow> jsval \<Rightarrow> string" where
  "stringify_indented n JUndefined = ''null''"
| "stringify_indented n JNull = ''null''"
| "stringify_indented n (JBool b) = (if b then ''true'' else ''false'')"
| "stringify_indented n (JNum i) = int_to_string i"
| "stringify_indented n (JStr s) = quote s"
| "stringify_indented n (JArr xs) =
     (if xs = [] then ''[]''
      else ''['' @ [newline] @ spaces (n + 2)
           @ join ('','' @ [newline] @ spaces (n + 2)) (map (stringify_indented (n + 2)) xs)
           @ [newline] @ spaces n @ '']'')"
| "stringify_indented n (JObj kvs) =
     (let members = filter (\<lambda>(k, v). v \<noteq> JUndefined) kvs in
      if members = [] then ''{}''
      else ''{'' @ [newline] @ spaces (n + 2)
           @ join ('','' @ [newline] @ spaces (n + 2))
               (map (\<lambda>(k, v). quote k @ '': '' @ stringify_indented (n + 2) v) members)
           @ [newline] @ spaces n @ ''}'')"

definition JSON_stringify_pretty :: "jsval \<Rightarrow> string" where
  "JSON_stringify_pretty v = stringify_indented 0 v"

section \<open>Result combiner\<close>

text \<open>
  \<^verbatim>\<open>combineChunkedResults(results, format)\<close>. The results are the texts returned
  by the generation calls, in chunk order.
\<close>

definition header :: "nat \<Rightarrow> string" where
  "header n =
     ''/* Design tokens generated from Figma - Combined from '' @ num_to_string n
     @ '' chunks */\<newline>\<newline>''"

subsection \<open>Tailwind: extracting the configuration object\<close>

text \<open>
  The class \<^verbatim>\<open>\s\<close> on code units below 256: tab, line feed, vertical tab, form
  feed, carriage return, space, no-break space.
\<close>

definition is_space :: "char \<Rightarrow> bool" where
  "is_space c = ((of_char c :: nat) \<in> set [9, 10, 11, 12, 13, 32, 160])"

text \<open>
  \<^verbatim>\<open>[\s\S]*}\<close> on the text after the opening brace: the star is greedy, so the
  match runs to the last closing brace of the text, and there is none when the
  text has no closing brace.
\<close>

definition upto_last_brace :: "string \<Rightarrow> string option" where
  "upto_last_brace s =
     (if CHR ''}'' \<in> set s then Some (rev (dropWhile (\<lambda>c. c \<noteq> CHR ''}'') (rev s))) else None)"

text \<open>
  The pattern \<^verbatim>\<open>/module\.exports\s*=\s*({[\s\S]*})/\<close> tried at the start of
  \<open>s\<close>; the result is capture group 1. Each \<^verbatim>\<open>\s*\<close> takes all the white
  space there is: giving some back cannot help, since the next pattern character
  is not white space.
\<close>

definition match_config_at :: "string \<Rightarrow> string option" where
  "match_config_at s =
     (if take 14 s = ''module.exports'' then
        (case dropWhile is_space (drop 14 s) of
           [] \<Rightarrow> None
         | c # r \<Rightarrow>
             if c = CHR ''='' then
               (case dropWhile is_space r of
                  [] \<Rightarrow> None
                | c' # r' \<Rightarrow>
                    if c' = CHR ''{'' then map_option (\<lambda>m. CHR ''{'' # m) (upto_last_brace r')
                    else None)
             else None)
      else None)"

text \<open>\<^verbatim>\<open>r.match(...)\<close>: the leftmost position where the pattern matches.\<close>

fun match_config :: "string \<Rightarrow> string option" where
  "match_config [] = None"
| "match_config (c # cs) =
     (case match_config_at (c # cs) of Some m \<Rightarrow> Some m | None \<Rightarrow> match_config cs)"

text \<open>The callback of \<^verbatim>\<open>results.map\<close>: the extracted object, or the text itself.\<close>

definition tailwindFragment :: "string \<Rightarrow> string" where
  "tailwindFragment r = (case match_config r of Some m \<Rightarrow> m | None \<Rightarrow> r)"

subsection \<open>JSON: merging the parsed results\<close>

text \<open>
  The own enumerable properties that \<^verbatim>\<open>Object.assign\<close> copies from a source:
  the properties of an object, the elements of an array, the characters of a
  string, nothing from any other value.
\<close>

fun enumerable_props :: "jsval \<Rightarrow> (string \<times> jsval) list" where
  "enumerable_props (JObj kvs) = kvs"
| "enumerable_props (JArr xs) = zip (map num_to_string [0..<length xs]) xs"
| "enumerable_props (JStr s) = zip (map num_to_string [0..<length s]) (map (\<lambda>c. JStr [c]) s)"
| "enumerable_props v = []"

text \<open>
  The object \<^verbatim>\<open>merged\<close>: its own properties, and whether an assignment to the
  key \<^verbatim>\<open>__proto__\<close> still reaches the setter of \<^verbatim>\<open>Object.prototype\<close>. It does
  at first. Such an assignment then adds no property: it replaces the prototype
  of \<^verbatim>\<open>merged\<close> when the value is an object, an array or \<^verbatim>\<open>null\<close>, after which
  the setter is out of reach if the new prototype is \<^verbatim>\<open>null\<close> or has an own
  property \<^verbatim>\<open>__proto__\<close>. Every other assignment writes an own property.
\<close>

definition assign_prop ::
  "string \<Rightarrow> jsval \<Rightarrow> (string \<times> jsval) list \<times> bool \<Rightarrow> (string \<times> jsval) list \<times> bool" where
  "assign_prop k v merged =
     (case merged of (props, setter) \<Rightarrow>
        if k = ''__proto__'' \<and> setter \<and> k \<notin> set (map fst props) then
          (props,
           case v of
             JObj q \<Rightarrow> ''__proto__'' \<notin> set (map fst q)
           | JArr xs \<Rightarrow> True
           | JNull \<Rightarrow> False
           | _ \<Rightarrow> setter)
        else (set_key k v props, setter))"

text \<open>\<^verbatim>\<open>Object.assign(merged, parsed)\<close>\<close>

definition object_assign ::
  "(string \<times> jsval) list \<times> bool \<Rightarrow> jsval \<Rightarrow> (string \<times> jsval) list \<times> bool" where
  "object_assign merged parsed = foldl (\<lambda>m (k, v). assign_prop k v m) merged (enumerable_props parsed)"

text \<open>
  The callback of \<^verbatim>\<open>results.forEach\<close>. \<^verbatim>\<open>JSON.parse\<close> is the platform's: it is
  the parameter \<open>parse\<close>, with \<open>None\<close> for a \<^verbatim>\<open>SyntaxError\<close>.
\<close>

definition mergeResult ::
  "(string \<Rightarrow> jsval option) \<Rightarrow> (string \<times> jsval) list \<times> bool \<Rightarrow> string \<times> nat
     \<Rightarrow> (string \<times> jsval) list \<times> bool" where
  "mergeResult parse merged ri =
     (case ri of (result, index) \<Rightarrow>
        case parse result of
          Some parsed \<Rightarrow> object_assign merged parsed
        | None \<Rightarrow> assign_prop (''chunk_'' @ num_to_string (index + 1)) (JStr result) merged)"

definition mergeResults :: "(string \<Rightarrow> jsval option) \<Rightarrow> string list \<Rightarrow> jsval" where
  "mergeResults parse results =
     JObj (fst (foldl (mergeResult parse) ([], True) (zip results [0..<length results])))"

subsection \<open>The combiner\<close>

text \<open>
  The two \<^verbatim>\<open>try\<close> blocks have handlers that fall back to plain concatenation.
  Nothing in the blocks throws when the results are strings (\<^verbatim>\<open>match\<close>,
  \<^verbatim>\<open>map\<close>, \<^verbatim>\<open>join\<close> and \<^verbatim>\<open>JSON.stringify\<close> of plain data do not, and a
  failing \<^verbatim>\<open>JSON.parse\<close> is caught by the inner handler), so the handlers have
  no branch here.
\<close>

definition combineChunkedResults :: "(string \<Rightarrow> jsval option) \<Rightarrow> string list \<Rightarrow> string \<Rightarrow> string" where
  "combineChunkedResults parse results format =
     (if format = ''css'' \<or> format = ''scss'' \<or> format = ''css-variables'' then
        header (length results) @ join ''\<newline>\<newline>/* --- Next chunk --- */\<newline>\<newline>'' results
      else if format = ''tailwind'' then
        header (length results)
        @ ''module.exports = {\<newline>  theme: {\<newline>    extend: {\<newline>      // Combined from ''
        @ num_to_string (length results) @ '' chunks\<newline>      ''
        @ join '',\<newline>      '' (map tailwindFragment results)
        @ ''\<newline>    }\<newline>  }\<newline>}''
      else if format = ''javascript'' then
        header (length results) @ join ''\<newline>\<newline>// --- Next chunk ---\<newline>\<newline>'' results
      else if format = ''json'' then
        JSON_stringify_pretty (mergeResults parse results)
      else
        header (length results) @ join ''\<newline>\<newline>// --- Next chunk ---\<newline>\<newline>'' results)"

section \<open>Vocabulary of the properties\<close>

text \<open>
  The raw style list of one kind, as the normalizer maps over it: the elements of
  \<^verbatim>\<open>styles.styles[kind]\<close>, and no elements when that list is absent.
\<close>

definition rawStyles :: "jsval \<Rightarrow> string \<Rightarrow> jsval list" where
  "rawStyles styles kind = (case styleList styles kind of Inr (Some xs) \<Rightarrow> xs | _ \<Rightarrow> [])"

text \<open>The defaulted fields of a typography token and their defaults.\<close>

definition typographyDefaults :: "(string \<times> jsval) list" where
  "typographyDefaults =
     [(''fontSize'', JNum 16),
      (''fontFamily'', JStr ''system''),
      (''fontWeight'', JStr ''normal''),
      (''lineHeight'', JStr ''normal''),
      (''letterSpacing'', JStr ''normal'')]"

text \<open>\<^verbatim>\<open>style.values?.effects\<close>\<close>

definition effectsOf :: "jsval \<Rightarrow> jsval" where
  "effectsOf style = opt_prop (get_prop style ''values'') ''effects''"

text \<open>
  The fields that an effect token takes from the first effect of its style, besides
  the type: three for every effect, then those of the effect's type. With each
  field goes the test that guards its copy: \<open>True\<close> for a field copied when its
  value is truthy, \<open>False\<close> for a field copied when its value is not
  \<^verbatim>\<open>undefined\<close>.
\<close>

definition effectPlan :: "jsval \<Rightarrow> (string \<times> bool) list" where
  "effectPlan ty =
     [(''radius'', False), (''blendMode'', True), (''visible'', False)]
     @ (if ty = JStr ''INNER_SHADOW'' \<or> ty = JStr ''DROP_SHADOW'' then
          [(''color'', True), (''offset'', True), (''spread'', False),
           (''showShadowBehindNode'', False)]
        else [])
     @ (if ty = JStr ''LAYER_BLUR'' \<or> ty = JStr ''BACKGROUND_BLUR'' then
          [(''blurType'', True), (''startRadius'', False), (''startOffset'', True),
           (''endOffset'', True)]
        else [])
     @ (if ty = JStr ''NOISE'' then
          [(''noiseSize'', False), (''noiseType'', True), (''density'', False),
           (''secondaryColor'', True), (''opacity'', False)]
        else [])
     @ (if ty = JStr ''TEXTURE'' then [(''noiseSize'', False), (''clipToShape'', False)] else [])"

text \<open>
  What a token reads under such a key \<open>k\<close> when its first effect is \<open>e\<close>: the
  value of \<open>e\<close> under \<open>k\<close> when \<open>k\<close> is a field of the type of \<open>e\<close> and the
  value passes the test, and \<^verbatim>\<open>undefined\<close> otherwise.
\<close>

definition effectField :: "jsval \<Rightarrow> string \<Rightarrow> jsval" where
  "effectField e k =
     (case map_of (effectPlan (get_prop e ''type'')) k of
        None \<Rightarrow> JUndefined
      | Some onlyTruthy \<Rightarrow>
          if onlyTruthy \<and> \<not> truthy (get_prop e k) then JUndefined else get_prop e k)"

text \<open>One guarded copy of a field of \<open>e\<close> into a token under construction.\<close>

definition copyField :: "jsval \<Rightarrow> (string \<times> jsval) list \<Rightarrow> string \<times> bool \<Rightarrow> (string \<times> jsval) list" where
  "copyField e effect kb =
     (if snd kb then put_if_truthy (fst kb) (get_prop e (fst kb)) effect
      else put_if_defined (fst kb) (get_prop e (fst kb)) effect)"

text \<open>
  The key of the fallback field of the result at position \<open>index\<close> (counted from 0):
  \<^verbatim>\<open>`chunk_${index + 1}`\<close>.
\<close>

definition chunkKey :: "nat \<Rightarrow> string" where
  "chunkKey index = ''chunk_'' @ num_to_string (index + 1)"

text \<open>
  The assignments to \<^verbatim>\<open>merged\<close> that one result causes, and those of all the
  results, in the order in which the loop makes them.
\<close>

definition resultWrites :: "(string \<Rightarrow> jsval option) \<Rightarrow> string \<times> nat \<Rightarrow> (string \<times> jsval) list" where
  "resultWrites parse ri =
     (case ri of (result, index) \<Rightarrow>
        case parse result of
          Some parsed \<Rightarrow> enumerable_props parsed
        | None \<Rightarrow> [(chunkKey index, JStr result)])"

definition mergeWrites :: "(string \<Rightarrow> jsval option) \<Rightarrow> string list \<Rightarrow> (string \<times> jsval) list" where
  "mergeWrites parse results = concat (map (resultWrites parse) (zip results [0..<length results]))"

text \<open>The outer configuration object of the Tailwind branch around its fragments.\<close>

definition tailwindConfig :: "nat \<Rightarrow> string list \<Rightarrow> string" where
  "tailwindConfig n fragments =
     ''module.exports = {\<newline>  theme: {\<newline>    extend: {\<newline>      // Combined from ''
     @ num_to_string n @ '' chunks\<newline>      ''
     @ join '',\<newline>      '' fragments
     @ ''\<newline>    }\<newline>  }\<newline>}''"


section \<open>Example inputs\<close>

text \<open>Two text styles, one with a size and a family, one without values.\<close>

definition w_text_styles :: jsval where
  "w_text_styles = JObj [(''styles'', JObj [
     (''text'', JArr [JObj [(''name'', JStr ''Body''),
                            (''values'', JObj [(''fontSize'', JNum 14), (''fontFamily'', JStr ''Inter'')])],
                      JObj [(''name'', JStr ''Title'')]])])]"

definition w_text_compressed :: styleset where
  "w_text_compressed =
     \<lparr>colors = [],
      typography =
        [JObj [(''name'', JStr ''Body''), (''fontSize'', JNum 14), (''fontFamily'', JStr ''Inter''),
               (''fontWeight'', JStr ''normal''), (''lineHeight'', JStr ''normal''),
               (''letterSpacing'', JStr ''normal'')],
         JObj [(''name'', JStr ''Title''), (''fontSize'', JNum 16), (''fontFamily'', JStr ''system''),
               (''fontWeight'', JStr ''normal''), (''lineHeight'', JStr ''normal''),
               (''letterSpacing'', JStr ''normal'')]],
      effects = [], spacing = [],
      summary = Some \<lparr>totalColors = 0, totalTypography = 2, totalEffects = 0, totalSpacing = 0,
                       originalFileSize = Some 100, chunkNumber = None\<rparr>\<rparr>"

text \<open>A text style whose size is 0 and whose family is the empty string.\<close>

definition w_falsy_styles :: jsval where
  "w_falsy_styles = JObj [(''styles'', JObj [
     (''text'', JArr [JObj [(''name'', JStr ''Caption''),
                            (''values'', JObj [(''fontSize'', JNum 0), (''fontFamily'', JStr [])])]])])]"

definition w_falsy_compressed :: styleset where
  "w_falsy_compressed =
     \<lparr>colors = [],
      typography =
        [JObj [(''name'', JStr ''Caption''), (''fontSize'', JNum 16), (''fontFamily'', JStr ''system''),
               (''fontWeight'', JStr ''normal''), (''lineHeight'', JStr ''normal''),
               (''letterSpacing'', JStr ''normal'')]],
      effects = [], spacing = [],
      summary = Some \<lparr>totalColors = 0, totalTypography = 1, totalEffects = 0, totalSpacing = 0,
                       originalFileSize = Some 80, chunkNumber = None\<rparr>\<rparr>"

text \<open>
  Four effect styles: two stacked effects, an empty effect list, an effect without
  a type, and a style without values.
\<close>

definition w_effect_styles :: jsval where
  "w_effect_styles = JObj [(''styles'', JObj [
     (''effect'', JArr
        [JObj [(''name'', JStr ''Shadow''),
               (''values'', JObj [(''effects'', JArr
                  [JObj [(''type'', JStr ''DROP_SHADOW''), (''radius'', JNum 4)],
                   JObj [(''type'', JStr ''LAYER_BLUR''), (''radius'', JNum 2)]])])],
         JObj [(''name'', JStr ''Empty''), (''values'', JObj [(''effects'', JArr [])])],
         JObj [(''name'', JStr ''Untyped''), (''values'', JObj [(''effects'', JArr [JObj [(''radius'', JNum 1)]])])],
         JObj [(''name'', JStr ''Bare'')]])])]"

definition w_effect_compressed :: styleset where
  "w_effect_compressed =
     \<lparr>colors = [], typography = [],
      effects =
        [JObj [(''name'', JStr ''Shadow''), (''type'', JStr ''DROP_SHADOW''), (''radius'', JNum 4),
               (''allEffects'', JArr
                  [JObj [(''type'', JStr ''DROP_SHADOW''), (''radius'', JNum 4)],
                   JObj [(''type'', JStr ''LAYER_BLUR''), (''radius'', JNum 2)]])]],
      spacing = [],
      summary = Some \<lparr>totalColors = 0, totalTypography = 0, totalEffects = 1, totalSpacing = 0,
                       originalFileSize = Some 243, chunkNumber = None\<rparr>\<rparr>"

text \<open>
  An effect style with two stacked effects; the first is a drop shadow whose
  color is the empty string.
\<close>

definition w_glow_shadow :: jsval where
  "w_glow_shadow = JObj [(''type'', JStr ''DROP_SHADOW''), (''radius'', JNum 4), (''color'', JStr [])]"

definition w_glow_blur :: jsval where
  "w_glow_blur = JObj [(''type'', JStr ''LAYER_BLUR'')]"

definition w_glow_style :: jsval where
  "w_glow_style =
     JObj [(''name'', JStr ''Glow''),
           (''values'', JObj [(''effects'', JArr [w_glow_shadow, w_glow_blur])])]"

text \<open>
  Two fill styles: a pattern paint that carries nothing but its type, and a style
  without any values.
\<close>

definition cx_pattern_style :: jsval where
  "cx_pattern_style = JObj [(''name'', JStr ''Dots''), (''values'', JObj [(''type'', JStr ''PATTERN'')])]"

definition cx_ghost_style :: jsval where
  "cx_ghost_style = JObj [(''name'', JStr ''Ghost''), (''values'', JObj [])]"

definition cx_fill_styles :: jsval where
  "cx_fill_styles = JObj [(''styles'', JObj [(''fill'', JArr [cx_pattern_style, cx_ghost_style])])]"

definition cx_pattern_paint :: jsval where
  "cx_pattern_paint = JObj [(''name'', JStr ''Dots''), (''type'', JStr ''PATTERN'')]"

definition cx_ghost_paint :: jsval where
  "cx_ghost_paint = JObj [(''name'', JStr ''Ghost''), (''type'', JStr ''unknown'')]"

definition cx_fill_compressed :: styleset where
  "cx_fill_compressed =
     \<lparr>colors = [cx_pattern_paint], typography = [], effects = [], spacing = [],
      summary = Some \<lparr>totalColors = 1, totalTypography = 0, totalEffects = 0, totalSpacing = 0,
                       originalFileSize = Some 94, chunkNumber = None\<rparr>\<rparr>"

text \<open>The typography token of the style of \<open>w_falsy_styles\<close>.\<close>

definition caption_token :: jsval where
  "caption_token =
     JObj [(''name'', JStr ''Caption''), (''fontSize'', JNum 16), (''fontFamily'', JStr ''system''),
           (''fontWeight'', JStr ''normal''), (''lineHeight'', JStr ''normal''),
           (''letterSpacing'', JStr ''normal'')]"

text \<open>
  A \<^verbatim>\<open>JSON.parse\<close> for examples: it knows the texts of the table and rejects every
  other text.
\<close>

definition parse_table :: "(string \<times> jsval) list \<Rightarrow> string \<Rightarrow> jsval option" where
  "parse_table t = map_of t"

definition ex_parse :: "string \<Rightarrow> jsval option" where
  "ex_parse = parse_table
     [(''{\"a\":1}'', JObj [(''a'', JNum 1)]),
      (''{\"b\":2}'', JObj [(''b'', JNum 2)]),
      (''{\"a\":3,\"c\":4}'', JObj [(''a'', JNum 3), (''c'', JNum 4)]),
      (''{\"__proto__\":{\"x\":1}}'', JObj [(''__proto__'', JObj [(''x'', JNum 1)])]),
      (''{\"__proto__\":{\"y\":2}}'', JObj [(''__proto__'', JObj [(''y'', JNum 2)])])]"

section \<open>The partition is lossless\<close>

text \<open>What a loop state holds of one category: the saved chunks, then the working chunk.\<close>

definition gathered :: "category \<Rightarrow> styleset list \<times> styleset \<Rightarrow> jsval list" where
  "gathered cat st = concat (map (items_of cat) (fst st)) @ items_of cat (snd st)"

text \<open>
  A loop state in which no chunk but the first saved one can be empty: the saved
  chunks after the first have items, and so has the working chunk once a chunk
  has been saved.
\<close>

definition laterChunksFilled :: "styleset list \<times> styleset \<Rightarrow> bool" where
  "laterChunksFilled st = (list_all hasItems (tl (fst st)) \<and> (fst st = [] \<or> hasItems (snd st)))"

lemma items_of_set_items:
  "items_of cat' (set_items cat xs c) = (if cat' = cat then xs else items_of cat' c)"
  by (cases cat; cases cat') simp_all

lemma items_of_summary_update [simp]:
  "items_of cat (c\<lparr>summary := s\<rparr>) = items_of cat c"
  by (cases cat) simp_all

lemma items_of_emptyChunk [simp]: "items_of cat emptyChunk = []"
  by (cases cat) (simp_all add: emptyChunk_def)

lemma gathered_finalizeChunk:
  "gathered cat (finalizeChunk chunks cur, new) =
     concat (map (items_of cat) chunks) @ items_of cat cur @ items_of cat new"
  by (simp add: gathered_def finalizeChunk_def)

lemma gathered_addItem:
  "gathered cat' (addItem m cat st item) = gathered cat' st @ (if cat' = cat then [item] else [])"
proof (cases st)
  case (Pair chunks cur)
  show ?thesis
  proof (cases "int (countTokens (JSON_stringify (styleset_to_js
                   (set_items cat (items_of cat cur @ [item]) cur)))) > m")
    case True
    then have "addItem m cat st item = (finalizeChunk chunks cur, set_items cat [item] emptyChunk)"
      by (simp add: addItem_def Pair)
    then show ?thesis
      by (simp add: gathered_finalizeChunk items_of_set_items) (simp add: gathered_def Pair)
  next
    case False
    then have "addItem m cat st item = (chunks, set_items cat (items_of cat cur @ [item]) cur)"
      by (simp add: addItem_def Pair)
    then show ?thesis
      by (simp add: gathered_def Pair items_of_set_items)
  qed
qed

lemma gathered_foldl_addItem:
  "gathered cat' (foldl (addItem m cat) st xs) = gathered cat' st @ (if cat' = cat then xs else [])"
  by (induction xs arbitrary: st) (simp_all add: gathered_addItem)

lemma gathered_addCategory:
  "gathered cat' (addCategory m c st cat) = gathered cat' st @ (if cat' = cat then items_of cat c else [])"
  by (simp add: addCategory_def gathered_foldl_addItem)

lemma gathered_all_categories:
  "gathered cat (foldl (addCategory m c) ([], emptyChunk) categories) = items_of cat c"
  by (cases cat) (simp_all add: categories_def gathered_addCategory, simp_all add: gathered_def)

lemma not_hasItems: "\<not> hasItems c \<Longrightarrow> items_of cat c = []"
  by (cases cat) (simp_all add: hasItems_def categories_def)

lemma planChunks_items:
  "concat (map (items_of cat) (planChunks c m)) = items_of cat c"
proof (cases "shouldChunkStyles c m")
  case False
  then show ?thesis by (simp add: planChunks_def)
next
  case True
  obtain chunks cur where st: "foldl (addCategory m c) ([], emptyChunk) categories = (chunks, cur)"
    by (cases "foldl (addCategory m c) ([], emptyChunk) categories")
  have all: "concat (map (items_of cat) chunks) @ items_of cat cur = items_of cat c"
    using gathered_all_categories [of cat m c] by (simp add: st gathered_def)
  show ?thesis
  proof (cases "hasItems cur")
    case True
    with \<open>shouldChunkStyles c m\<close> st all show ?thesis
      by (simp add: planChunks_def finalizeChunk_def)
  next
    case False
    then have "items_of cat cur = []" by (rule not_hasItems)
    with False \<open>shouldChunkStyles c m\<close> st all show ?thesis
      by (simp add: planChunks_def)
  qed
qed

text \<open>
  Claim C1. For every compressed style set and every token budget, the
  \<^verbatim>\<open>colors\<close> arrays of the chunks that the planner produces, concatenated in
  chunk order, are the \<^verbatim>\<open>colors\<close> array of the set, and the same holds for
  \<^verbatim>\<open>typography\<close>, \<^verbatim>\<open>effects\<close> and \<^verbatim>\<open>spacing\<close>: no item is dropped,
  duplicated, reordered or moved to another category.
\<close>

theorem planChunks_lossless:
  "concat (map colors (planChunks c maxTokensPerChunk)) = colors c
   \<and> concat (map typography (planChunks c maxTokensPerChunk)) = typography c
   \<and> concat (map effects (planChunks c maxTokensPerChunk)) = effects c
   \<and> concat (map spacing (planChunks c maxTokensPerChunk)) = spacing c"
  using planChunks_items [of Colors c maxTokensPerChunk]
        planChunks_items [of Typography c maxTokensPerChunk]
        planChunks_items [of Effects c maxTokensPerChunk]
        planChunks_items [of Spacing c maxTokensPerChunk]
  by (simp add: items_of.simps [abs_def])

section \<open>The normalizer, section by section\<close>

lemma map_throwing_Inr:
  "map_throwing f xs = Inr ys \<Longrightarrow> list_all2 (\<lambda>x y. f x = Inr y) xs ys"
  by (induction xs arbitrary: ys) (auto split: sum.splits)

lemma compressSection_Inr:
  assumes "compressSection styles kind f select = Inr zs"
  shows "\<exists>ys. map_throwing f (rawStyles styles kind) = Inr ys \<and> zs = select ys \<or> (styleList styles kind = Inr None \<and> zs = [])"
  using assms
  by (auto simp: compressSection_def rawStyles_def split: sum.splits option.splits)

lemma compress_sections:
  assumes "compressStylesForAI styles = Inr c"
  shows "compressSection styles ''fill'' paintOfStyle (filter keepPaint) = Inr (colors c)"
    and "compressSection styles ''text'' typographyOfStyle (\<lambda>ts. ts) = Inr (typography c)"
    and "compressSection styles ''effect'' effectOfStyle (\<lambda>es. map the (filter keepEffect es)) = Inr (effects c)"
    and "compressSection styles ''grid'' gridOfStyle (filter keepGrid) = Inr (spacing c)"
    and "summary c = Some \<lparr>totalColors = length (colors c), totalTypography = length (typography c),
            totalEffects = length (effects c), totalSpacing = length (spacing c),
            originalFileSize = Some (length (JSON_stringify styles)), chunkNumber = None\<rparr>"
  using assms by (auto simp: compressStylesForAI_def split: sum.splits)

lemma typography_tokens:
  assumes "compressStylesForAI styles = Inr c"
  shows "list_all2 (\<lambda>style t. typographyOfStyle style = Inr t) (rawStyles styles ''text'') (typography c)"
proof -
  from compress_sections(2) [OF assms] compressSection_Inr
  consider ys where "map_throwing typographyOfStyle (rawStyles styles ''text'') = Inr ys" "typography c = ys"
    | "styleList styles ''text'' = Inr None" "typography c = []"
    by blast
  then show ?thesis
  proof cases
    case 1
    then show ?thesis using map_throwing_Inr by blast
  next
    case 2
    then show ?thesis by (simp add: rawStyles_def)
  qed
qed

lemma typographyOfStyle_field:
  assumes "typographyOfStyle style = Inr t" and "(k, d) \<in> set typographyDefaults"
  shows "get_prop t k = js_or (opt_prop (get_prop style ''values'') k) d"
  using assms
  by (auto simp: typographyOfStyle_def typographyDefaults_def Let_def split: if_splits)

lemma typographyOfStyle_name:
  assumes "typographyOfStyle style = Inr t"
  shows "get_prop t ''name'' = get_prop style ''name''"
  using assms
  by (auto simp: typographyOfStyle_def Let_def split: if_splits)

lemma js_or_not_nullish: "\<not> nullish d \<Longrightarrow> \<not> nullish (js_or v d)"
  by (cases v) (auto simp: js_or_def)

lemma typographyDefaults_not_nullish: "(k, d) \<in> set typographyDefaults \<Longrightarrow> \<not> nullish d"
  by (auto simp: typographyDefaults_def)

lemma typographyOfStyle_shape:
  assumes "typographyOfStyle style = Inr t"
  shows "\<exists>fields. t = JObj fields
           \<and> map fst fields = ''name'' # map fst typographyDefaults
           \<and> (\<not> nullish (get_prop style ''name'') \<longrightarrow> list_all (\<lambda>kv. \<not> nullish (snd kv)) fields)"
  using assms
  by (auto simp: typographyOfStyle_def typographyDefaults_def Let_def js_or_not_nullish
           simp del: get_prop.simps split: if_splits)

lemma typography_field:
  assumes "compressStylesForAI styles = Inr c"
      and "i < length (rawStyles styles ''text'')"
      and "(k, d) \<in> set typographyDefaults"
  shows "get_prop (typography c ! i) k
           = js_or (opt_prop (get_prop (rawStyles styles ''text'' ! i) ''values'') k) d"
proof -
  have "list_all2 (\<lambda>style t. typographyOfStyle style = Inr t) (rawStyles styles ''text'') (typography c)"
    using assms(1) by (rule typography_tokens)
  then have "typographyOfStyle (rawStyles styles ''text'' ! i) = Inr (typography c ! i)"
    using assms(2) by (rule list_all2_nthD)
  then show ?thesis using assms(3) by (rule typographyOfStyle_field)
qed

lemma typography_length:
  assumes "compressStylesForAI styles = Inr c"
  shows "length (typography c) = length (rawStyles styles ''text'')"
  using typography_tokens [OF assms] by (simp add: list_all2_lengthD)

text \<open>
  Claim C8. For every raw style collection that the normalizer accepts, the
  compressed \<^verbatim>\<open>typography\<close> array has exactly one token per raw text style,
  in order (text styles are never filtered, whatever they carry), and each of the
  fields \<^verbatim>\<open>fontSize\<close>, \<^verbatim>\<open>fontFamily\<close>, \<^verbatim>\<open>fontWeight\<close>,
  \<^verbatim>\<open>lineHeight\<close>, \<^verbatim>\<open>letterSpacing\<close> of a token is the upstream value or
  else its default 16, \<^verbatim>\<open>"system"\<close>, \<^verbatim>\<open>"normal"\<close>, \<^verbatim>\<open>"normal"\<close>,
  \<^verbatim>\<open>"normal"\<close>: the default when the field is absent upstream, and never
  \<^verbatim>\<open>null\<close> or \<^verbatim>\<open>undefined\<close>. A token has these five fields and
  \<^verbatim>\<open>name\<close>, which is the name of the style as it is, so that no field of the
  token of a named style is \<^verbatim>\<open>null\<close>.
\<close>

theorem typography_one_token_per_style:
  assumes "compressStylesForAI styles = Inr c"
  shows "length (typography c) = length (rawStyles styles ''text'')
         \<and> (\<forall>i k d. i < length (rawStyles styles ''text'') \<longrightarrow> (k, d) \<in> set typographyDefaults \<longrightarrow>
               get_prop (typography c ! i) k
                 = js_or (opt_prop (get_prop (rawStyles styles ''text'' ! i) ''values'') k) d
               \<and> (opt_prop (get_prop (rawStyles styles ''text'' ! i) ''values'') k = JUndefined
                    \<longrightarrow> get_prop (typography c ! i) k = d)
               \<and> \<not> nullish (get_prop (typography c ! i) k))
         \<and> (\<forall>i. i < length (rawStyles styles ''text'') \<longrightarrow>
               get_prop (typography c ! i) ''name'' = get_prop (rawStyles styles ''text'' ! i) ''name''
               \<and> (\<exists>fields. typography c ! i = JObj fields
                     \<and> map fst fields = ''name'' # map fst typographyDefaults
                     \<and> (\<not> nullish (get_prop (rawStyles styles ''text'' ! i) ''name'') \<longrightarrow>
                          list_all (\<lambda>kv. \<not> nullish (snd kv)) fields)))"
proof -
  let ?raw = "rawStyles styles ''text''"
  have token: "typographyOfStyle (?raw ! i) = Inr (typography c ! i)" if "i < length ?raw" for i
    using list_all2_nthD [OF typography_tokens [OF assms] that] .
  have name: "get_prop (typography c ! i) ''name'' = get_prop (?raw ! i) ''name''
      \<and> (\<exists>fields. typography c ! i = JObj fields
            \<and> map fst fields = ''name'' # map fst typographyDefaults
            \<and> (\<not> nullish (get_prop (?raw ! i) ''name'') \<longrightarrow>
                 list_all (\<lambda>kv. \<not> nullish (snd kv)) fields))"
    if "i < length ?raw" for i
    using typographyOfStyle_name [OF token [OF that]] typographyOfStyle_shape [OF token [OF that]]
    by blast
  have absent: "get_prop (typography c ! i) k = d"
    if "i < length ?raw" and "(k, d) \<in> set typographyDefaults"
      and "opt_prop (get_prop (?raw ! i) ''values'') k = JUndefined" for i k d
    using typography_field [OF assms that(1,2)] that(3) by (simp add: js_or_def)
  have nonnull: "\<not> nullish (get_prop (typography c ! i) k)"
    if "i < length ?raw" and "(k, d) \<in> set typographyDefaults" for i k d
    using typography_field [OF assms that] typographyDefaults_not_nullish [OF that(2)] js_or_not_nullish
    by simp
  from typography_length [OF assms] typography_field [OF assms] absent nonnull name show ?thesis
    by blast
qed

lemmas eval_json =
  quote_def quote_char_def dquote_def backslash_def int_to_string_def num_to_string.simps digit_char_def

lemmas eval_compress =
  compressStylesForAI_def compressSection_def styleList_def opt_prop_def js_or_def Let_def

lemma w_text_compress: "compressStylesForAI w_text_styles = Inr w_text_compressed"
  by (simp add: w_text_styles_def w_text_compressed_def eval_compress typographyOfStyle_def eval_json)

theorem typography_one_token_per_style_witness:
  "compressStylesForAI w_text_styles = Inr w_text_compressed
   \<and> length (rawStyles w_text_styles ''text'') = 2
   \<and> get_prop (typography w_text_compressed ! 0) ''fontSize'' = JNum 14
   \<and> get_prop (typography w_text_compressed ! 1) ''fontSize'' = JNum 16
   \<and> \<not> nullish (get_prop (typography w_text_compressed ! 1) ''letterSpacing'')"
proof -
  note T = typography_one_token_per_style [OF w_text_compress]
  have n: "length (typography w_text_compressed) = 2"
    by (simp add: w_text_compressed_def)
  with T have len: "length (rawStyles w_text_styles ''text'') = 2"
    by simp
  have fs: "(''fontSize'', JNum 16) \<in> set typographyDefaults"
    and ls: "(''letterSpacing'', JStr ''normal'') \<in> set typographyDefaults"
    by (simp_all add: typographyDefaults_def)
  have raw: "rawStyles w_text_styles ''text'' =
      [JObj [(''name'', JStr ''Body''),
             (''values'', JObj [(''fontSize'', JNum 14), (''fontFamily'', JStr ''Inter'')])],
       JObj [(''name'', JStr ''Title'')]]"
    by (simp add: rawStyles_def w_text_styles_def styleList_def opt_prop_def)
  have i0: "0 < length (rawStyles w_text_styles ''text'')"
    and i1: "1 < length (rawStyles w_text_styles ''text'')"
    using len by simp_all
  have "get_prop (typography w_text_compressed ! 0) ''fontSize''
      = js_or (opt_prop (get_prop (rawStyles w_text_styles ''text'' ! 0) ''values'') ''fontSize'') (JNum 16)"
    using T [THEN conjunct2, THEN conjunct1, rule_format, OF i0 fs] by blast
  then have f0: "get_prop (typography w_text_compressed ! 0) ''fontSize'' = JNum 14"
    by (simp add: raw opt_prop_def js_or_def)
  have "opt_prop (get_prop (rawStyles w_text_styles ''text'' ! 1) ''values'') ''fontSize'' = JUndefined
      \<longrightarrow> get_prop (typography w_text_compressed ! 1) ''fontSize'' = JNum 16"
    using T [THEN conjunct2, THEN conjunct1, rule_format, OF i1 fs] by blast
  then have f1: "get_prop (typography w_text_compressed ! 1) ''fontSize'' = JNum 16"
    by (simp add: raw opt_prop_def)
  have f2: "\<not> nullish (get_prop (typography w_text_compressed ! 1) ''letterSpacing'')"
    using T [THEN conjunct2, THEN conjunct1, rule_format, OF i1 ls] by blast
  from w_text_compress len f0 f1 f2 show ?thesis by blast
qed

text \<open>
  Claim C10. Typography defaulting triggers on falsy values, not only on absent
  ones: for every text style and each of the five defaulted fields, when the
  upstream value is falsy (0, the empty string, \<^verbatim>\<open>null\<close>, \<^verbatim>\<open>false\<close>, or
  absent) the token carries the default, so \<^verbatim>\<open>fontSize\<close> 0 becomes 16 and
  \<^verbatim>\<open>fontFamily\<close> \<^verbatim>\<open>""\<close> becomes \<^verbatim>\<open>"system"\<close>.
\<close>

theorem typography_falsy_defaulted:
  assumes "compressStylesForAI styles = Inr c"
      and "i < length (rawStyles styles ''text'')"
      and "(k, d) \<in> set typographyDefaults"
      and "\<not> truthy (opt_prop (get_prop (rawStyles styles ''text'' ! i) ''values'') k)"
  shows "get_prop (typography c ! i) k = d"
  using typography_field [OF assms(1-3)] assms(4) by (simp add: js_or_def)

lemma w_falsy_compress: "compressStylesForAI w_falsy_styles = Inr w_falsy_compressed"
  by (simp add: w_falsy_styles_def w_falsy_compressed_def eval_compress typographyOfStyle_def eval_json)

theorem typography_falsy_defaulted_witness:
  "opt_prop (get_prop (rawStyles w_falsy_styles ''text'' ! 0) ''values'') ''fontSize'' = JNum 0
   \<and> get_prop (typography w_falsy_compressed ! 0) ''fontSize'' = JNum 16
   \<and> opt_prop (get_prop (rawStyles w_falsy_styles ''text'' ! 0) ''values'') ''fontFamily'' = JStr []
   \<and> get_prop (typography w_falsy_compressed ! 0) ''fontFamily'' = JStr ''system''"
proof -
  have raw: "rawStyles w_falsy_styles ''text'' =
      [JObj [(''name'', JStr ''Caption''),
             (''values'', JObj [(''fontSize'', JNum 0), (''fontFamily'', JStr [])])]]"
    by (simp add: rawStyles_def w_falsy_styles_def styleList_def opt_prop_def)
  have i: "0 < length (rawStyles w_falsy_styles ''text'')"
    by (simp add: raw)
  have size: "opt_prop (get_prop (rawStyles w_falsy_styles ''text'' ! 0) ''values'') ''fontSize'' = JNum 0"
    and family: "opt_prop (get_prop (rawStyles w_falsy_styles ''text'' ! 0) ''values'') ''fontFamily'' = JStr []"
    by (simp_all add: raw opt_prop_def)
  have fs: "(''fontSize'', JNum 16) \<in> set typographyDefaults"
    and ff: "(''fontFamily'', JStr ''system'') \<in> set typographyDefaults"
    by (simp_all add: typographyDefaults_def)
  have "get_prop (typography w_falsy_compressed ! 0) ''fontSize'' = JNum 16"
    by (rule typography_falsy_defaulted [OF w_falsy_compress i fs]) (simp add: size)
  moreover have "get_prop (typography w_falsy_compressed ! 0) ''fontFamily'' = JStr ''system''"
    by (rule typography_falsy_defaulted [OF w_falsy_compress i ff]) (simp add: family)
  ultimately show ?thesis using size family by blast
qed

text \<open>
  Claim C2. For every compressed style set whose estimated token count, the
  ceiling of a quarter of the length of its serialized JSON, is at or below the
  budget, the planner returns exactly one chunk, the input set unchanged; when the
  set is the normalizer's output for \<^verbatim>\<open>styles\<close>, that is the result of
  \<^verbatim>\<open>chunkStyles\<close>, and its summary has no \<^verbatim>\<open>chunkNumber\<close>. (The last two
  conjuncts say that the estimate is that ceiling: the least number whose
  fourfold reaches the length.)
\<close>

theorem chunkStyles_within_budget:
  assumes "int (countTokens (JSON_stringify (styleset_to_js c))) \<le> maxTokensPerChunk"
  shows "planChunks c maxTokensPerChunk = [c]
         \<and> (\<forall>styles. compressStylesForAI styles = Inr c \<longrightarrow>
               chunkStyles styles maxTokensPerChunk = Inr [c]
               \<and> map_option chunkNumber (summary c) = Some None)
         \<and> length (JSON_stringify (styleset_to_js c))
               \<le> 4 * countTokens (JSON_stringify (styleset_to_js c))
         \<and> 4 * countTokens (JSON_stringify (styleset_to_js c))
               < length (JSON_stringify (styleset_to_js c)) + 4"
proof -
  have ceil: "length s \<le> 4 * countTokens s \<and> 4 * countTokens s < length s + 4" for s
    unfolding countTokens_def by arith
  from assms have one: "planChunks c maxTokensPerChunk = [c]"
    by (simp add: planChunks_def shouldChunkStyles_def)
  have "chunkStyles styles maxTokensPerChunk = Inr [c] \<and> map_option chunkNumber (summary c) = Some None"
    if "compressStylesForAI styles = Inr c" for styles
    using that one compress_sections(5) [OF that] by (simp add: chunkStyles_def)
  with one ceil show ?thesis by blast
qed

theorem chunkStyles_within_budget_witness:
  "int (countTokens (JSON_stringify (styleset_to_js w_text_compressed))) \<le> 80000
   \<and> chunkStyles w_text_styles 80000 = Inr [w_text_compressed]
   \<and> map_option chunkNumber (summary w_text_compressed) = Some None"
proof -
  have b: "int (countTokens (JSON_stringify (styleset_to_js w_text_compressed))) \<le> 80000"
    by (simp add: w_text_compressed_def styleset_to_js_def summary_to_js_def countTokens_def eval_json)
  from chunkStyles_within_budget [OF b] w_text_compress b show ?thesis by blast
qed

section \<open>Effect and fill tokens\<close>

lemma map_of_update_key:
  "k \<in> fst ` set ps \<Longrightarrow> map_of (update_key k v ps) k' = (if k' = k then Some v else map_of ps k')"
  by (induction ps) force+

lemma map_of_insert_index:
  "k \<notin> fst ` set ps \<Longrightarrow> map_of (insert_index i k v ps) k' = (if k' = k then Some v else map_of ps k')"
  by (induction ps) (auto split: option.splits)

lemma map_of_append_new:
  "k \<notin> fst ` set ps \<Longrightarrow> map_of (ps @ [(k, v)]) k' = (if k' = k then Some v else map_of ps k')"
  by (induction ps) auto

lemma map_of_set_key:
  "map_of (set_key k v ps) k' = (if k' = k then Some v else map_of ps k')"
proof (cases "k \<in> fst ` set ps")
  case True
  then show ?thesis by (simp add: set_key_def map_of_update_key)
next
  case False
  then show ?thesis
    by (cases "array_index k")
       (simp_all add: set_key_def map_of_insert_index map_of_append_new del: map_of_append)
qed

lemma get_prop_set_key:
  "get_prop (JObj (set_key k v ps)) k' = (if k' = k then v else get_prop (JObj ps) k')"
  by (simp add: map_of_set_key)

lemma get_prop_put_if_truthy:
  "get_prop (JObj (put_if_truthy k v ps)) k' = (if k' = k \<and> truthy v then v else get_prop (JObj ps) k')"
  by (simp add: put_if_truthy_def get_prop_set_key del: get_prop.simps)

lemma get_prop_put_if_defined:
  "get_prop (JObj (put_if_defined k v ps)) k' = (if k' = k \<and> v \<noteq> JUndefined then v else get_prop (JObj ps) k')"
  by (simp add: put_if_defined_def get_prop_set_key del: get_prop.simps)

lemmas get_prop_put = get_prop_put_if_truthy get_prop_put_if_defined get_prop_set_key

lemma effectFields_plan:
  "effectFields name e =
     foldl (copyField e)
       [(''name'', name), (''type'', js_or (get_prop e ''type'') (JStr ''unknown''))]
       (effectPlan (get_prop e ''type''))"
  by (simp add: effectFields_def commonEffectFields_def shadowFields_def blurFields_def
      noiseFields_def textureFields_def effectPlan_def copyField_def Let_def del: get_prop.simps)

lemma get_prop_copyField:
  "get_prop (JObj (copyField e effect kb)) k =
     (if k = fst kb \<and> (if snd kb then truthy (get_prop e k) else get_prop e k \<noteq> JUndefined)
      then get_prop e k else get_prop (JObj effect) k)"
  by (cases kb) (auto simp: copyField_def get_prop_put simp del: get_prop.simps)

lemma get_prop_foldl_copyField:
  "distinct (map fst plan) \<Longrightarrow>
   get_prop (JObj (foldl (copyField e) effect plan)) k =
     (case map_of plan k of
        None \<Rightarrow> get_prop (JObj effect) k
      | Some onlyTruthy \<Rightarrow>
          if (if onlyTruthy then truthy (get_prop e k) else get_prop e k \<noteq> JUndefined)
          then get_prop e k else get_prop (JObj effect) k)"
proof (induction plan arbitrary: effect rule: rev_induct)
  case Nil
  then show ?case by simp
next
  case (snoc kb plan)
  obtain k' b where kb: "kb = (k', b)" by (cases kb)
  from snoc.prems have d: "distinct (map fst plan)" and new: "k' \<notin> fst ` set plan"
    by (simp_all add: kb)
  from new have none: "map_of plan k' = None"
    by (simp add: map_of_eq_None_iff)
  show ?case
    using none
    by (auto simp: get_prop_copyField snoc.IH [OF d] kb map_add_def simp del: get_prop.simps
        split: option.splits)
qed

lemma effect_type_cases:
  obtains "ty = JStr ''INNER_SHADOW''" | "ty = JStr ''DROP_SHADOW''" | "ty = JStr ''LAYER_BLUR''"
    | "ty = JStr ''BACKGROUND_BLUR''" | "ty = JStr ''NOISE''" | "ty = JStr ''TEXTURE''"
    | "ty \<noteq> JStr ''INNER_SHADOW''" "ty \<noteq> JStr ''DROP_SHADOW''" "ty \<noteq> JStr ''LAYER_BLUR''"
      "ty \<noteq> JStr ''BACKGROUND_BLUR''" "ty \<noteq> JStr ''NOISE''" "ty \<noteq> JStr ''TEXTURE''"
  by blast

lemma distinct_effectPlan: "distinct (map fst (effectPlan ty))"
  by (cases ty rule: effect_type_cases) (simp_all add: effectPlan_def)

lemma effectPlan_name: "map_of (effectPlan ty) ''name'' = None"
  by (cases ty rule: effect_type_cases) (simp_all add: effectPlan_def)

lemma effectPlan_type: "map_of (effectPlan ty) ''type'' = None"
  by (cases ty rule: effect_type_cases) (simp_all add: effectPlan_def)

lemma effectPlan_allEffects: "map_of (effectPlan ty) ''allEffects'' = None"
  by (cases ty rule: effect_type_cases) (simp_all add: effectPlan_def)

lemma effectFields_field:
  "get_prop (JObj (effectFields name e)) k =
     (if k = ''name'' then name
      else if k = ''type'' then js_or (get_prop e ''type'') (JStr ''unknown'')
      else effectField e k)"
proof -
  let ?plan = "effectPlan (get_prop e ''type'')"
  let ?base = "[(''name'', name), (''type'', js_or (get_prop e ''type'') (JStr ''unknown''))]"
  have look: "get_prop (JObj (effectFields name e)) k =
      (case map_of ?plan k of
         None \<Rightarrow> get_prop (JObj ?base) k
       | Some onlyTruthy \<Rightarrow>
           if (if onlyTruthy then truthy (get_prop e k) else get_prop e k \<noteq> JUndefined)
           then get_prop e k else get_prop (JObj ?base) k)"
    by (simp only: effectFields_plan get_prop_foldl_copyField [OF distinct_effectPlan])
  show ?thesis
  proof (cases "k = ''name'' \<or> k = ''type''")
    case True
    have "get_prop (JObj ?base) ''name'' = name"
      and "get_prop (JObj ?base) ''type'' = js_or (get_prop e ''type'') (JStr ''unknown'')"
      by simp_all
    with True show ?thesis
      by (auto simp: look effectPlan_name effectPlan_type simp del: get_prop.simps)
  next
    case False
    then have base: "get_prop (JObj ?base) k = JUndefined"
      by simp
    show ?thesis
    proof (cases "map_of ?plan k")
      case None
      with False base show ?thesis
        by (simp add: look effectField_def del: get_prop.simps)
    next
      case (Some b)
      with False base show ?thesis
        by (cases b) (auto simp: look effectField_def simp del: get_prop.simps)
    qed
  qed
qed

lemma section_tokens:
  assumes "compressSection styles kind f select = Inr zs" and "select [] = []"
  shows "\<exists>ys. list_all2 (\<lambda>style y. f style = Inr y) (rawStyles styles kind) ys \<and> zs = select ys"
proof -
  from compressSection_Inr [OF assms(1)]
  consider ys where "map_throwing f (rawStyles styles kind) = Inr ys" "zs = select ys"
    | "styleList styles kind = Inr None" "zs = []"
    by blast
  then show ?thesis
  proof cases
    case 1
    then show ?thesis using map_throwing_Inr by blast
  next
    case 2
    then have "rawStyles styles kind = []" by (simp add: rawStyles_def)
    with 2 assms(2) show ?thesis by simp
  qed
qed

lemma keepEffect_iff: "keepEffect r = (r \<noteq> None \<and> get_prop (the r) ''type'' \<noteq> JStr ''unknown'')"
  by (cases r) simp_all

lemma effect_tokens:
  assumes "compressStylesForAI styles = Inr c"
  shows "\<exists>rs. list_all2 (\<lambda>style r. effectOfStyle style = Inr r) (rawStyles styles ''effect'') rs
              \<and> effects c = map the (filter (\<lambda>r. r \<noteq> None \<and> get_prop (the r) ''type'' \<noteq> JStr ''unknown'') rs)"
proof -
  have "keepEffect = (\<lambda>r. r \<noteq> None \<and> get_prop (the r) ''type'' \<noteq> JStr ''unknown'')"
    by (rule ext) (rule keepEffect_iff)
  with section_tokens [OF compress_sections(3) [OF assms]] show ?thesis by simp
qed

lemma effectOfStyle_none:
  assumes "\<not> nullish style" and "\<And>e rest. effectsOf style \<noteq> JArr (e # rest)"
  shows "effectOfStyle style = Inr None"
proof (cases "effectsOf style")
  case (JArr xs)
  with assms(2) have "xs = []" by (cases xs) auto
  with JArr assms(1) show ?thesis by (simp add: effectOfStyle_def effectsOf_def)
qed (use assms(1) in \<open>simp_all add: effectOfStyle_def effectsOf_def\<close>)

lemma effectsOf_not_nullish: "effectsOf style = JArr xs \<Longrightarrow> \<not> nullish style"
  by (cases style) (simp_all add: effectsOf_def opt_prop_def)

lemma effectOfStyle_first_nullish:
  assumes "effectsOf style = JArr (e # rest)" and "nullish e"
  shows "effectOfStyle style = Inl TypeError"
  using assms effectsOf_not_nullish [OF assms(1)]
  by (simp add: effectOfStyle_def effectsOf_def)

lemma effectOfStyle_token:
  assumes "effectsOf style = JArr (e # rest)" and "\<not> nullish e"
  shows "\<exists>t. effectOfStyle style = Inr (Some t)
           \<and> get_prop t ''name'' = get_prop style ''name''
           \<and> get_prop t ''type'' = js_or (get_prop e ''type'') (JStr ''unknown'')
           \<and> get_prop t ''allEffects'' = (if rest = [] then JUndefined else JArr (e # rest))
           \<and> (\<forall>k. k \<noteq> ''name'' \<longrightarrow> k \<noteq> ''type'' \<longrightarrow> k \<noteq> ''allEffects'' \<longrightarrow>
                  get_prop t k = effectField e k)"
proof -
  let ?fields = "effectFields (get_prop style ''name'') e"
  let ?t = "JObj (if rest = [] then ?fields else set_key ''allEffects'' (JArr (e # rest)) ?fields)"
  have t: "effectOfStyle style = Inr (Some ?t)"
    using assms effectsOf_not_nullish [OF assms(1)]
    by (simp add: effectOfStyle_def effectsOf_def Let_def)
  have none: "effectField e ''allEffects'' = JUndefined"
    by (simp add: effectField_def effectPlan_allEffects)
  have field: "get_prop ?t k =
      (if k = ''allEffects'' \<and> rest \<noteq> [] then JArr (e # rest)
       else get_prop (JObj ?fields) k)" for k
    by (simp add: get_prop_set_key del: get_prop.simps)
  have "get_prop ?t ''name'' = get_prop style ''name''"
    and "get_prop ?t ''type'' = js_or (get_prop e ''type'') (JStr ''unknown'')"
    and "get_prop ?t ''allEffects'' = (if rest = [] then JUndefined else JArr (e # rest))"
    and "\<forall>k. k \<noteq> ''name'' \<longrightarrow> k \<noteq> ''type'' \<longrightarrow> k \<noteq> ''allEffects'' \<longrightarrow>
           get_prop ?t k = effectField e k"
    by (simp_all add: field effectFields_field none del: get_prop.simps)
  with t show ?thesis by blast
qed

text \<open>
  Claim C9. For every raw style collection that the normalizer accepts, the
  compressed \<^verbatim>\<open>effects\<close> array is the list of the results of the effect callback
  on the raw effect styles, in order, without the styles that yield no token and
  without the tokens of type \<^verbatim>\<open>"unknown"\<close>; so it is never longer than the raw
  list and holds no token of type \<^verbatim>\<open>"unknown"\<close>. For every style: when its
  \<^verbatim>\<open>values.effects\<close> is missing, not an array, or empty, the callback yields no
  token (and throws a \<^verbatim>\<open>TypeError\<close> when the entry itself is \<^verbatim>\<open>null\<close> or
  \<^verbatim>\<open>undefined\<close>). When it is an array with a first element, the callback yields a token
  read off that first element (and throws a \<^verbatim>\<open>TypeError\<close> when the element is
  \<^verbatim>\<open>null\<close> or \<^verbatim>\<open>undefined\<close>): the token's \<^verbatim>\<open>name\<close> is the style's, its
  \<^verbatim>\<open>type\<close> is the first effect's or else \<^verbatim>\<open>"unknown"\<close>, its \<^verbatim>\<open>allEffects\<close> is
  the whole list when there is more than one effect and absent otherwise, and
  every other key reads the first effect's value when the key is a field of the
  effect's type that passes its guard (\<open>effectPlan\<close>), and \<^verbatim>\<open>undefined\<close>
  otherwise.
\<close>

theorem effects_from_first_effect:
  assumes "compressStylesForAI styles = Inr c"
  shows "(\<exists>rs. list_all2 (\<lambda>style r. effectOfStyle style = Inr r) (rawStyles styles ''effect'') rs
              \<and> effects c = map the (filter (\<lambda>r. r \<noteq> None \<and> get_prop (the r) ''type'' \<noteq> JStr ''unknown'') rs))
         \<and> length (effects c) \<le> length (rawStyles styles ''effect'')
         \<and> (\<forall>t \<in> set (effects c). get_prop t ''type'' \<noteq> JStr ''unknown'')
         \<and> (\<forall>style. (\<forall>e rest. effectsOf style \<noteq> JArr (e # rest)) \<longrightarrow>
               effectOfStyle style = (if nullish style then Inl TypeError else Inr None))
         \<and> (\<forall>style e rest. effectsOf style = JArr (e # rest) \<longrightarrow>
               (if nullish e then effectOfStyle style = Inl TypeError
                else \<exists>t. effectOfStyle style = Inr (Some t)
                       \<and> get_prop t ''name'' = get_prop style ''name''
                       \<and> get_prop t ''type'' = js_or (get_prop e ''type'') (JStr ''unknown'')
                       \<and> get_prop t ''allEffects'' = (if rest = [] then JUndefined else JArr (e # rest))
                       \<and> (\<forall>k. k \<noteq> ''name'' \<longrightarrow> k \<noteq> ''type'' \<longrightarrow> k \<noteq> ''allEffects'' \<longrightarrow>
                              get_prop t k = effectField e k)))"
proof -
  from effect_tokens [OF assms] obtain rs
    where rs: "list_all2 (\<lambda>style r. effectOfStyle style = Inr r) (rawStyles styles ''effect'') rs"
      and eff: "effects c = map the (filter (\<lambda>r. r \<noteq> None \<and> get_prop (the r) ''type'' \<noteq> JStr ''unknown'') rs)"
    by blast
  have "length (effects c) \<le> length rs"
    by (simp add: eff)
  with rs have len: "length (effects c) \<le> length (rawStyles styles ''effect'')"
    by (simp add: list_all2_lengthD)
  have known: "\<forall>t \<in> set (effects c). get_prop t ''type'' \<noteq> JStr ''unknown''"
    by (auto simp: eff simp del: get_prop.simps)
  have first: "if nullish e then effectOfStyle style = Inl TypeError
      else \<exists>t. effectOfStyle style = Inr (Some t)
             \<and> get_prop t ''name'' = get_prop style ''name''
             \<and> get_prop t ''type'' = js_or (get_prop e ''type'') (JStr ''unknown'')
             \<and> get_prop t ''allEffects'' = (if rest = [] then JUndefined else JArr (e # rest))
             \<and> (\<forall>k. k \<noteq> ''name'' \<longrightarrow> k \<noteq> ''type'' \<longrightarrow> k \<noteq> ''allEffects'' \<longrightarrow>
                    get_prop t k = effectField e k)"
    if "effectsOf style = JArr (e # rest)" for style e rest
  proof (cases "nullish e")
    case True
    with effectOfStyle_first_nullish [OF that True] show ?thesis
      by (simp only: if_True)
  next
    case False
    with effectOfStyle_token [OF that False] show ?thesis
      by (simp only: if_False)
  qed
  have none: "effectOfStyle style = (if nullish style then Inl TypeError else Inr None)"
    if "\<forall>e rest. effectsOf style \<noteq> JArr (e # rest)" for style
  proof (cases "nullish style")
    case True
    then show ?thesis by (simp add: effectOfStyle_def)
  next
    case False
    with that effectOfStyle_none [of style] show ?thesis by simp
  qed
  from rs eff len known none first show ?thesis
    by blast
qed

lemma w_effect_compress: "compressStylesForAI w_effect_styles = Inr w_effect_compressed"
  by (simp add: w_effect_styles_def w_effect_compressed_def eval_compress eval_json
      effectOfStyle_def effectFields_def commonEffectFields_def shadowFields_def blurFields_def
      noiseFields_def textureFields_def put_if_truthy_def put_if_defined_def set_key_def
      array_index_def is_digit_def)

theorem effects_from_first_effect_witness:
  "compressStylesForAI w_effect_styles = Inr w_effect_compressed
   \<and> length (effects w_effect_compressed) = 1
   \<and> 1 \<le> length (rawStyles w_effect_styles ''effect'')
   \<and> get_prop (hd (effects w_effect_compressed)) ''type'' \<noteq> JStr ''unknown''
   \<and> effectOfStyle (JObj [(''name'', JStr ''Empty''), (''values'', JObj [(''effects'', JArr [])])]) = Inr None
   \<and> (\<exists>t. effectOfStyle w_glow_style = Inr (Some t)
          \<and> get_prop t ''name'' = JStr ''Glow''
          \<and> get_prop t ''type'' = JStr ''DROP_SHADOW''
          \<and> get_prop t ''radius'' = JNum 4
          \<and> get_prop t ''color'' = JUndefined
          \<and> get_prop t ''allEffects'' = JArr [w_glow_shadow, w_glow_blur])"
proof -
  note T = effects_from_first_effect [OF w_effect_compress]
  have n: "length (effects w_effect_compressed) = 1"
    by (simp add: w_effect_compressed_def)
  from T have "length (effects w_effect_compressed) \<le> length (rawStyles w_effect_styles ''effect'')"
    by blast
  with n have len: "1 \<le> length (rawStyles w_effect_styles ''effect'')"
    by simp
  have "hd (effects w_effect_compressed) \<in> set (effects w_effect_compressed)"
    by (simp add: w_effect_compressed_def)
  with T have ty: "get_prop (hd (effects w_effect_compressed)) ''type'' \<noteq> JStr ''unknown''"
    by blast
  let ?empty = "JObj [(''name'', JStr ''Empty''), (''values'', JObj [(''effects'', JArr [])])]"
  have "\<forall>e rest. effectsOf ?empty \<noteq> JArr (e # rest)"
    by (simp add: effectsOf_def opt_prop_def)
  with T have "effectOfStyle ?empty = (if nullish ?empty then Inl TypeError else Inr None)"
    by blast
  then have none: "effectOfStyle ?empty = Inr None"
    by simp
  have first: "effectsOf w_glow_style = JArr (w_glow_shadow # [w_glow_blur])"
    by (simp add: effectsOf_def opt_prop_def w_glow_style_def)
  have shadow: "\<not> nullish w_glow_shadow"
    by (simp add: w_glow_shadow_def)
  note G = T [THEN conjunct2, THEN conjunct2, THEN conjunct2, THEN conjunct2, rule_format, OF first]
  with shadow obtain t where t: "effectOfStyle w_glow_style = Inr (Some t)"
      and name: "get_prop t ''name'' = get_prop w_glow_style ''name''"
      and type: "get_prop t ''type'' = js_or (get_prop w_glow_shadow ''type'') (JStr ''unknown'')"
      and all: "get_prop t ''allEffects''
                  = (if [w_glow_blur] = [] then JUndefined else JArr (w_glow_shadow # [w_glow_blur]))"
      and other: "\<And>k. k \<noteq> ''name'' \<Longrightarrow> k \<noteq> ''type'' \<Longrightarrow> k \<noteq> ''allEffects'' \<Longrightarrow>
                    get_prop t k = effectField w_glow_shadow k"
    by auto
  have radius: "get_prop t ''radius'' = JNum 4"
    by (simp add: other effectField_def effectPlan_def w_glow_shadow_def del: get_prop.simps) simp
  have color: "get_prop t ''color'' = JUndefined"
    by (simp add: other effectField_def effectPlan_def w_glow_shadow_def del: get_prop.simps) simp
  from name have name': "get_prop t ''name'' = JStr ''Glow''"
    by (simp add: w_glow_style_def)
  from type have type': "get_prop t ''type'' = JStr ''DROP_SHADOW''"
    by (simp add: js_or_def w_glow_shadow_def)
  from all have all': "get_prop t ''allEffects'' = JArr [w_glow_shadow, w_glow_blur]"
    by simp
  from w_effect_compress n len ty none t name' type' radius color all' show ?thesis
    by blast
qed

lemmas eval_paint =
  paintOfStyle_def commonPaintFields_def solidFields_def gradientFields_def imageFields_def
  patternFields_def fallbackFields_def keepPaint_def put_if_truthy_def put_if_defined_def
  set_key_def array_index_def is_digit_def

lemma cx_pattern_paintOfStyle: "paintOfStyle cx_pattern_style = Inr cx_pattern_paint"
  by (simp add: cx_pattern_style_def cx_pattern_paint_def eval_paint opt_prop_def js_or_def Let_def)

lemma cx_ghost_paintOfStyle: "paintOfStyle cx_ghost_style = Inr cx_ghost_paint"
  by (simp add: cx_ghost_style_def cx_ghost_paint_def eval_paint opt_prop_def js_or_def Let_def)

lemma cx_fill_compress: "compressStylesForAI cx_fill_styles = Inr cx_fill_compressed"
  by (simp add: cx_fill_styles_def cx_fill_compressed_def eval_compress eval_json
      cx_pattern_paintOfStyle cx_ghost_paintOfStyle)
     (simp add: cx_pattern_paint_def cx_ghost_paint_def cx_pattern_style_def cx_ghost_style_def
        keepPaint_def js_or_def eval_json)

lemma cx_fill_raw: "rawStyles cx_fill_styles ''fill'' = [cx_pattern_style, cx_ghost_style]"
  by (simp add: rawStyles_def cx_fill_styles_def styleList_def opt_prop_def)

text \<open>
  Claim C3 as stated fails: the pattern paint below has no \<^verbatim>\<open>color\<close>, no
  \<^verbatim>\<open>gradientStops\<close>, no \<^verbatim>\<open>imageRef\<close> and no fallback, and it is in the
  compressed \<^verbatim>\<open>colors\<close> array.
\<close>

theorem colorless_pattern_paint_kept:
  "compressStylesForAI cx_fill_styles = Inr cx_fill_compressed
   \<and> cx_pattern_style \<in> set (rawStyles cx_fill_styles ''fill'')
   \<and> paintOfStyle cx_pattern_style = Inr cx_pattern_paint
   \<and> get_prop cx_pattern_paint ''color'' = JUndefined
   \<and> get_prop cx_pattern_paint ''gradientStops'' = JUndefined
   \<and> get_prop cx_pattern_paint ''imageRef'' = JUndefined
   \<and> get_prop cx_pattern_paint ''fallbackHex'' = JUndefined
   \<and> get_prop cx_pattern_paint ''fallbackCss'' = JUndefined
   \<and> cx_pattern_paint \<in> set (colors cx_fill_compressed)"
  using cx_fill_compress cx_pattern_paintOfStyle
  by (simp add: cx_fill_raw) (simp add: cx_pattern_paint_def cx_fill_compressed_def)

lemma paint_tokens:
  assumes "compressStylesForAI styles = Inr c"
  shows "\<exists>ps. list_all2 (\<lambda>style p. paintOfStyle style = Inr p) (rawStyles styles ''fill'') ps
              \<and> colors c = filter keepPaint ps"
  using section_tokens [OF compress_sections(1) [OF assms]] by simp

lemma keepPaint_iff:
  "keepPaint p = (get_prop p ''type'' \<noteq> JStr ''unknown''
                  \<or> truthy (get_prop p ''fallbackHex'') \<or> truthy (get_prop p ''fallbackCss''))"
  by (simp add: keepPaint_def js_or_def del: get_prop.simps)

text \<open>
  Claim C3, amended. For every raw style collection that the normalizer accepts
  and every fill style in it, the color token built for the style is absent from
  the compressed \<^verbatim>\<open>colors\<close> array exactly when its resolved type is
  \<^verbatim>\<open>"unknown"\<close> and it has no fallback (neither \<^verbatim>\<open>fallbackHex\<close> nor
  \<^verbatim>\<open>fallbackCss\<close> is truthy); a token of any other type is kept, whether or
  not it has a color representation.
\<close>

theorem unknown_paint_without_fallback_dropped:
  assumes "compressStylesForAI styles = Inr c"
      and "style \<in> set (rawStyles styles ''fill'')"
      and "paintOfStyle style = Inr p"
  shows "(p \<notin> set (colors c)) =
           (get_prop p ''type'' = JStr ''unknown''
            \<and> \<not> truthy (get_prop p ''fallbackHex'') \<and> \<not> truthy (get_prop p ''fallbackCss''))"
proof -
  from paint_tokens [OF assms(1)] obtain ps
    where ps: "list_all2 (\<lambda>style p. paintOfStyle style = Inr p) (rawStyles styles ''fill'') ps"
      and col: "colors c = filter keepPaint ps"
    by blast
  from assms(2) obtain i where i: "i < length (rawStyles styles ''fill'')" "rawStyles styles ''fill'' ! i = style"
    by (auto simp: in_set_conv_nth)
  with ps have "paintOfStyle style = Inr (ps ! i)" and "i < length ps"
    by (auto dest: list_all2_nthD list_all2_lengthD)
  with assms(3) have "p \<in> set ps"
    by auto
  then have "(p \<in> set (colors c)) = keepPaint p"
    by (simp add: col)
  then show ?thesis
    by (auto simp: keepPaint_iff simp del: get_prop.simps)
qed

theorem unknown_paint_without_fallback_dropped_witness:
  "cx_ghost_style \<in> set (rawStyles cx_fill_styles ''fill'')
   \<and> get_prop cx_ghost_paint ''type'' = JStr ''unknown''
   \<and> cx_ghost_paint \<notin> set (colors cx_fill_compressed)"
proof -
  have m: "cx_ghost_style \<in> set (rawStyles cx_fill_styles ''fill'')"
    by (simp add: cx_fill_raw)
  have ty: "get_prop cx_ghost_paint ''type'' = JStr ''unknown''"
    and hex: "\<not> truthy (get_prop cx_ghost_paint ''fallbackHex'')"
    and css: "\<not> truthy (get_prop cx_ghost_paint ''fallbackCss'')"
    by (simp_all add: cx_ghost_paint_def)
  from unknown_paint_without_fallback_dropped [OF cx_fill_compress m cx_ghost_paintOfStyle] ty hex css
  have "cx_ghost_paint \<notin> set (colors cx_fill_compressed)"
    by blast
  with m ty show ?thesis by blast
qed

section \<open>An oversized first item\<close>

text \<open>Only the first chunk of a plan can be without items.\<close>

lemma hasItems_iff: "hasItems c = (\<exists>cat. items_of cat c \<noteq> [])"
proof
  assume "hasItems c"
  then have "items_of Colors c \<noteq> [] \<or> items_of Typography c \<noteq> []
      \<or> items_of Effects c \<noteq> [] \<or> items_of Spacing c \<noteq> []"
    by (simp add: hasItems_def categories_def)
  then show "\<exists>cat. items_of cat c \<noteq> []"
    by blast
next
  assume "\<exists>cat. items_of cat c \<noteq> []"
  then obtain cat where "items_of cat c \<noteq> []" by blast
  then show "hasItems c"
    by (cases cat) (simp_all add: hasItems_def categories_def)
qed

lemma hasItems_pushed: "hasItems (set_items cat (xs @ [item]) c)"
  unfolding hasItems_iff by (rule exI [of _ cat]) (simp add: items_of_set_items)

lemma hasItems_single: "hasItems (set_items cat [item] c)"
  unfolding hasItems_iff by (rule exI [of _ cat]) (simp add: items_of_set_items)

lemma hasItems_summary [simp]: "hasItems (c\<lparr>summary := s\<rparr>) = hasItems c"
  by (simp add: hasItems_iff)

lemma tl_finalizeChunk:
  "list_all hasItems (tl chunks) \<Longrightarrow> chunks = [] \<or> hasItems cur \<Longrightarrow>
     list_all hasItems (tl (finalizeChunk chunks cur))"
  by (cases chunks) (auto simp: finalizeChunk_def)

lemma laterChunksFilled_addItem:
  assumes "laterChunksFilled st"
  shows "laterChunksFilled (addItem m cat st item)"
proof (cases st)
  case (Pair chunks cur)
  with assms have inv: "list_all hasItems (tl chunks)" "chunks = [] \<or> hasItems cur"
    by (simp_all add: laterChunksFilled_def)
  show ?thesis
  proof (cases "int (countTokens (JSON_stringify (styleset_to_js
                   (set_items cat (items_of cat cur @ [item]) cur)))) > m")
    case True
    then have "addItem m cat st item = (finalizeChunk chunks cur, set_items cat [item] emptyChunk)"
      by (simp add: addItem_def Pair)
    with inv show ?thesis
      by (simp add: laterChunksFilled_def tl_finalizeChunk hasItems_single)
  next
    case False
    then have "addItem m cat st item = (chunks, set_items cat (items_of cat cur @ [item]) cur)"
      by (simp add: addItem_def Pair)
    with inv show ?thesis
      by (simp add: laterChunksFilled_def hasItems_pushed)
  qed
qed

lemma laterChunksFilled_foldl_addItem:
  "laterChunksFilled st \<Longrightarrow> laterChunksFilled (foldl (addItem m cat) st xs)"
  by (induction xs arbitrary: st) (simp_all add: laterChunksFilled_addItem)

lemma laterChunksFilled_addCategory:
  "laterChunksFilled st \<Longrightarrow> laterChunksFilled (addCategory m c st cat)"
  by (simp add: addCategory_def laterChunksFilled_foldl_addItem)

lemma laterChunksFilled_foldl_addCategory:
  "laterChunksFilled st \<Longrightarrow> laterChunksFilled (foldl (addCategory m c) st cats)"
  by (induction cats arbitrary: st) (simp_all add: laterChunksFilled_addCategory)

lemma planChunks_later_chunks_filled:
  "list_all hasItems (tl (planChunks c m))"
proof (cases "shouldChunkStyles c m")
  case False
  then show ?thesis by (simp add: planChunks_def)
next
  case True
  obtain chunks cur where st: "foldl (addCategory m c) ([], emptyChunk) categories = (chunks, cur)"
    by (cases "foldl (addCategory m c) ([], emptyChunk) categories")
  have "laterChunksFilled ([], emptyChunk)"
    by (simp add: laterChunksFilled_def)
  then have "laterChunksFilled (chunks, cur)"
    using laterChunksFilled_foldl_addCategory [of "([], emptyChunk)" m c categories] by (simp add: st)
  then have inv: "list_all hasItems (tl chunks)" "chunks = [] \<or> hasItems cur"
    by (simp_all add: laterChunksFilled_def)
  with True st show ?thesis
    by (simp add: planChunks_def tl_finalizeChunk)
qed

lemmas eval_plan =
  planChunks_def shouldChunkStyles_def addCategory_def addItem_def finalizeChunk_def hasItems_def
  categories_def emptyChunk_def styleset_to_js_def summary_to_js_def countTokens_def

text \<open>
  Claim C5 says that every chunk the planner produces contains at least one item.
  With a budget of 20 tokens the one typography token of \<open>w_falsy_styles\<close> is
  oversized on its own (123 characters, 31 tokens) while the empty working chunk
  is within the budget (55 characters, 14 tokens). The planner puts the token
  alone in a chunk, as the claim says, but it first saves the still empty working
  chunk as chunk 1: the in-loop save has no test for emptiness, unlike the save of
  the final chunk. By \<open>planChunks_later_chunks_filled\<close> the first chunk is the
  only one that can be empty.
\<close>

theorem oversized_first_item_leaves_empty_chunk:
  "int (countTokens (JSON_stringify caption_token)) > 20
   \<and> int (countTokens (JSON_stringify (styleset_to_js emptyChunk))) \<le> 20
   \<and> chunkStyles w_falsy_styles 20 = Inr
        [\<lparr>colors = [], typography = [], effects = [], spacing = [],
          summary = Some \<lparr>totalColors = 0, totalTypography = 0, totalEffects = 0, totalSpacing = 0,
                           originalFileSize = None, chunkNumber = Some 1\<rparr>\<rparr>,
         \<lparr>colors = [], typography = [caption_token], effects = [], spacing = [],
          summary = Some \<lparr>totalColors = 0, totalTypography = 1, totalEffects = 0, totalSpacing = 0,
                           originalFileSize = None, chunkNumber = Some 2\<rparr>\<rparr>]"
  by (simp add: chunkStyles_def w_falsy_compress)
     (simp add: w_falsy_compressed_def caption_token_def eval_plan eval_json)

section \<open>The result combiner\<close>

lemma map_of_assign_prop:
  "k \<noteq> ''__proto__'' \<Longrightarrow>
     map_of (fst (assign_prop k' v merged)) k = (if k = k' then Some v else map_of (fst merged) k)"
  by (cases merged) (auto simp: assign_prop_def map_of_set_key)

lemma map_of_assign_all:
  "k \<noteq> ''__proto__'' \<Longrightarrow>
     map_of (fst (foldl (\<lambda>m (k, v). assign_prop k v m) merged ws)) k =
       (case map_of (rev ws) k of Some v \<Rightarrow> Some v | None \<Rightarrow> map_of (fst merged) k)"
proof (induction ws arbitrary: merged)
  case Nil
  then show ?case by simp
next
  case (Cons w ws)
  obtain k' v where w: "w = (k', v)" by (cases w)
  show ?case
    using Cons.prems
    by (simp add: Cons.IH w map_of_assign_prop map_add_def split: option.splits)
qed

lemma mergeResult_writes:
  "mergeResult parse merged ri = foldl (\<lambda>m (k, v). assign_prop k v m) merged (resultWrites parse ri)"
  by (cases ri) (simp add: mergeResult_def resultWrites_def object_assign_def chunkKey_def split: option.splits)

lemma foldl_mergeResult:
  "foldl (mergeResult parse) merged ris =
     foldl (\<lambda>m (k, v). assign_prop k v m) merged (concat (map (resultWrites parse) ris))"
  by (induction ris arbitrary: merged) (simp_all add: mergeResult_writes)

lemma mergeResults_writes:
  "mergeResults parse results =
     JObj (fst (foldl (\<lambda>m (k, v). assign_prop k v m) ([], True) (mergeWrites parse results)))"
  by (simp add: mergeResults_def mergeWrites_def foldl_mergeResult)

lemma mergeResults_lookup:
  assumes "k \<noteq> ''__proto__''"
  shows "get_prop (mergeResults parse results) k =
           (case map_of (rev (mergeWrites parse results)) k of Some v \<Rightarrow> v | None \<Rightarrow> JUndefined)"
  by (simp add: mergeResults_writes map_of_assign_all [OF assms] split: option.splits)

lemma assign_prop_proto_kept:
  assumes "snd merged" and "map_of (fst merged) ''__proto__'' = None"
      and "k = ''__proto__'' \<Longrightarrow> v \<noteq> JNull \<and> (\<forall>q. v = JObj q \<longrightarrow> ''__proto__'' \<notin> fst ` set q)"
  shows "snd (assign_prop k v merged) \<and> map_of (fst (assign_prop k v merged)) ''__proto__'' = None"
proof (cases merged)
  case (Pair props setter)
  with assms(1,2) have s: "setter" and p: "map_of props ''__proto__'' = None"
    by simp_all
  from p have absent: "''__proto__'' \<notin> fst ` set props"
    by (simp add: map_of_eq_None_iff)
  show ?thesis
  proof (cases "k = ''__proto__''")
    case True
    with assms(3) have "v \<noteq> JNull" and "\<And>q. v = JObj q \<Longrightarrow> ''__proto__'' \<notin> fst ` set q"
      by blast+
    with True s p absent show ?thesis
      by (cases v) (simp_all add: Pair assign_prop_def)
  next
    case False
    with s p show ?thesis
      by (simp add: Pair assign_prop_def map_of_set_key)
  qed
qed

lemma assign_all_proto_kept:
  assumes "\<forall>v. (''__proto__'', v) \<in> set ws \<longrightarrow>
             v \<noteq> JNull \<and> (\<forall>q. v = JObj q \<longrightarrow> ''__proto__'' \<notin> fst ` set q)"
      and "snd merged" and "map_of (fst merged) ''__proto__'' = None"
  shows "snd (foldl (\<lambda>m (k, v). assign_prop k v m) merged ws)
         \<and> map_of (fst (foldl (\<lambda>m (k, v). assign_prop k v m) merged ws)) ''__proto__'' = None"
  using assms
proof (induction ws arbitrary: merged)
  case Nil
  then show ?case by simp
next
  case (Cons w ws)
  obtain k v where w: "w = (k, v)" by (cases w)
  have step: "snd (assign_prop k v merged) \<and> map_of (fst (assign_prop k v merged)) ''__proto__'' = None"
    using Cons.prems(2,3)
  proof (rule assign_prop_proto_kept)
    assume "k = ''__proto__''"
    with Cons.prems(1) show "v \<noteq> JNull \<and> (\<forall>q. v = JObj q \<longrightarrow> ''__proto__'' \<notin> fst ` set q)"
      by (simp add: w)
  qed
  have "snd (foldl (\<lambda>m (k, v). assign_prop k v m) (assign_prop k v merged) ws)
      \<and> map_of (fst (foldl (\<lambda>m (k, v). assign_prop k v m) (assign_prop k v merged) ws)) ''__proto__'' = None"
    using Cons.prems(1) step by (intro Cons.IH) simp_all
  then show ?case by (simp add: w)
qed

lemma proto_key_absent:
  assumes "\<forall>v. (''__proto__'', v) \<in> set (mergeWrites parse results) \<longrightarrow>
             v \<noteq> JNull \<and> (\<forall>q. v = JObj q \<longrightarrow> ''__proto__'' \<notin> fst ` set q)"
  shows "get_prop (mergeResults parse results) ''__proto__'' = JUndefined"
  using assign_all_proto_kept [OF assms, of "([], True)"]
  by (simp add: mergeResults_writes)

lemma assign_others_proto:
  assumes "''__proto__'' \<notin> fst ` set ws"
  shows "snd (foldl (\<lambda>m (k, v). assign_prop k v m) merged ws) = snd merged
         \<and> map_of (fst (foldl (\<lambda>m (k, v). assign_prop k v m) merged ws)) ''__proto__''
             = map_of (fst merged) ''__proto__''"
  using assms
proof (induction ws arbitrary: merged)
  case Nil
  then show ?case by simp
next
  case (Cons w ws)
  obtain k v where w: "w = (k, v)" by (cases w)
  from Cons.prems have k: "k \<noteq> ''__proto__''" and rest: "''__proto__'' \<notin> fst ` set ws"
    by (auto simp: w)
  have "snd (assign_prop k v merged) = snd merged
      \<and> map_of (fst (assign_prop k v merged)) ''__proto__'' = map_of (fst merged) ''__proto__''"
    using k by (cases merged) (simp add: assign_prop_def map_of_set_key)
  with Cons.IH [OF rest, of "assign_prop k v merged"] show ?case
    by (simp add: w)
qed

lemma assign_distinct_proto:
  assumes "distinct (map fst ws)"
  shows "map_of (fst (foldl (\<lambda>m (k, v). assign_prop k v m) ([], True) ws)) ''__proto__'' = None"
proof (cases "''__proto__'' \<in> fst ` set ws")
  case False
  from assign_others_proto [OF False, of "([], True)"] show ?thesis
    by simp
next
  case True
  then obtain v where "(''__proto__'', v) \<in> set ws"
    by auto
  then obtain pre post where ws: "ws = pre @ (''__proto__'', v) # post"
    by (auto dest: split_list)
  with assms have pre: "''__proto__'' \<notin> fst ` set pre" and post: "''__proto__'' \<notin> fst ` set post"
    by auto
  let ?step = "\<lambda>m (k, v). assign_prop k v m"
  obtain props setter where m: "foldl ?step ([], True) pre = (props, setter)"
    by (cases "foldl ?step ([], True) pre")
  with assign_others_proto [OF pre, of "([], True)"]
  have s: "setter" and p: "map_of props ''__proto__'' = None"
    by simp_all
  from p have "''__proto__'' \<notin> fst ` set props"
    by (simp add: map_of_eq_None_iff)
  with s have "fst (assign_prop ''__proto__'' v (props, setter)) = props"
    by (simp add: assign_prop_def)
  with assign_others_proto [OF post, of "assign_prop ''__proto__'' v (props, setter)"] p
  show ?thesis
    by (simp add: ws m)
qed

lemma digits_value_snoc: "digits_value (s @ [c]) = 10 * digits_value s + ((of_char c :: nat) - 48)"
  by (simp add: digits_value_def)

lemma of_char_digit_char: "d < 10 \<Longrightarrow> (of_char (digit_char d) :: nat) = 48 + d"
proof -
  assume "d < 10"
  then have "d \<in> {0, 1, 2, 3, 4, 5, 6, 7, 8, 9}"
    by auto
  then show ?thesis
    by (auto simp: digit_char_def)
qed

lemma digits_value_num_to_string: "digits_value (num_to_string n) = n"
proof (induction n rule: num_to_string.induct)
  case (1 n)
  show ?case
  proof (cases "n < 10")
    case True
    then show ?thesis
      by (subst num_to_string.simps) (simp add: digits_value_def of_char_digit_char)
  next
    case False
    then have "digits_value (num_to_string n) = 10 * (n div 10) + n mod 10"
      by (subst num_to_string.simps) (simp add: digits_value_snoc "1.IH" of_char_digit_char)
    then show ?thesis by simp
  qed
qed

lemma num_to_string_inject: "num_to_string m = num_to_string n \<Longrightarrow> m = n"
  by (metis digits_value_num_to_string)

lemma chunkKey_inject: "chunkKey i = chunkKey j \<Longrightarrow> i = j"
  by (auto simp: chunkKey_def dest: num_to_string_inject)

lemma mergeWrites_snoc:
  "mergeWrites parse (results @ [r]) =
     mergeWrites parse results @ resultWrites parse (r, length results)"
  by (simp add: mergeWrites_def)

lemma fallback_write_last:
  assumes "i < length results" and "parse (results ! i) = None"
      and "\<And>j parsed. i < j \<Longrightarrow> j < length results \<Longrightarrow> parse (results ! j) = Some parsed
             \<Longrightarrow> chunkKey i \<notin> fst ` set (enumerable_props parsed)"
  shows "map_of (rev (mergeWrites parse results)) (chunkKey i) = Some (JStr (results ! i))"
  using assms
proof (induction results rule: rev_induct)
  case Nil
  then show ?case by simp
next
  case (snoc r results)
  let ?n = "length results"
  let ?wr = "resultWrites parse (r, ?n)"
  have look: "map_of (rev (mergeWrites parse (results @ [r]))) (chunkKey i) =
      (case map_of (rev ?wr) (chunkKey i) of
         Some v \<Rightarrow> Some v
       | None \<Rightarrow> map_of (rev (mergeWrites parse results)) (chunkKey i))"
    by (simp add: mergeWrites_snoc map_add_def)
  show ?case
  proof (cases "i = ?n")
    case True
    with snoc.prems(2) have "?wr = [(chunkKey i, JStr r)]"
      by (simp add: resultWrites_def)
    with True look show ?thesis
      by simp
  next
    case False
    with snoc.prems(1) have i: "i < ?n" by simp
    have none: "map_of (rev ?wr) (chunkKey i) = None"
    proof (cases "parse r")
      case None
      from False chunkKey_inject [of i ?n] have "chunkKey i \<noteq> chunkKey ?n" by blast
      with None show ?thesis
        by (simp add: resultWrites_def)
    next
      case (Some parsed)
      with snoc.prems(3) [of ?n parsed] i have "chunkKey i \<notin> fst ` set (enumerable_props parsed)"
        by simp
      with Some show ?thesis
        by (simp add: resultWrites_def map_of_eq_None_iff)
    qed
    have "map_of (rev (mergeWrites parse results)) (chunkKey i) = Some (JStr (results ! i))"
    proof (rule snoc.IH [OF i])
      from snoc.prems(2) i show "parse (results ! i) = None"
        by (simp add: nth_append)
    next
      fix j parsed
      assume "i < j" and j: "j < ?n" and "parse (results ! j) = Some parsed"
      with snoc.prems(3) [of j parsed] show "chunkKey i \<notin> fst ` set (enumerable_props parsed)"
        by (simp add: nth_append)
    qed
    with none i show ?thesis
      by (simp add: look nth_append)
  qed
qed

lemma fallback_key_kept:
  assumes "i < length results" and "parse (results ! i) = None"
      and "\<And>j parsed. i < j \<Longrightarrow> j < length results \<Longrightarrow> parse (results ! j) = Some parsed
             \<Longrightarrow> chunkKey i \<notin> fst ` set (enumerable_props parsed)"
  shows "get_prop (mergeResults parse results) (chunkKey i) = JStr (results ! i)"
proof -
  have last: "map_of (rev (mergeWrites parse results)) (chunkKey i) = Some (JStr (results ! i))"
    by (rule fallback_write_last [of i results parse, OF assms(1,2)]) (rule assms(3))
  have "chunkKey i \<noteq> ''__proto__''"
    by (simp add: chunkKey_def)
  then show ?thesis
    by (simp add: mergeResults_lookup last del: get_prop.simps)
qed

lemma two_results_overwrite:
  assumes "parse r1 = Some (JObj kvs1)" and "parse r2 = Some (JObj kvs2)"
      and "k \<in> fst ` set kvs2" and "k \<noteq> ''__proto__''" and "distinct (map fst kvs2)"
  shows "get_prop (mergeResults parse [r1, r2]) k = get_prop (JObj kvs2) k"
proof -
  have ws: "mergeWrites parse [r1, r2] = kvs1 @ kvs2"
    by (simp add: mergeWrites_def resultWrites_def assms(1,2) upt_rec)
  from assms(3) obtain v where v: "map_of kvs2 k = Some v"
    by (cases "map_of kvs2 k") (auto simp: map_of_eq_None_iff)
  then have "(k, v) \<in> set (rev kvs2)"
    by (simp add: map_of_SomeD)
  moreover from assms(5) have "distinct (map fst (rev kvs2))"
    by (simp add: rev_map [symmetric])
  ultimately have "map_of (rev kvs2) k = Some v"
    by (rule map_of_is_SomeI [rotated])
  with v show ?thesis
    by (simp add: mergeResults_lookup [OF assms(4)] ws map_add_def)
qed




lemmas eval_merge =
  mergeResults_def mergeResult_def object_assign_def assign_prop_def set_key_def array_index_def
  is_digit_def upt_rec

lemmas eval_pretty =
  JSON_stringify_pretty_def newline_def spaces_def eval_json

lemma merge_a_b:
  assumes "parse r1 = Some (JObj [(''a'', JNum 1)])" and "parse r2 = Some (JObj [(''b'', JNum 2)])"
  shows "combineChunkedResults parse [r1, r2] ''json'' = ''{\<newline>  \"a\": 1,\<newline>  \"b\": 2\<newline>}''"
proof -
  have "mergeResults parse [r1, r2] = JObj [(''a'', JNum 1), (''b'', JNum 2)]"
    by (simp add: eval_merge assms)
  then show ?thesis
    by (simp add: combineChunkedResults_def eval_pretty)
qed

text \<open>
  Claim C6 as stated fails at the key \<^verbatim>\<open>__proto__\<close>. The two results below are
  valid JSON objects with that key. \<^verbatim>\<open>Object.assign\<close> assigns to
  \<^verbatim>\<open>merged.__proto__\<close>, which reaches the setter of \<^verbatim>\<open>Object.prototype\<close>: the
  prototype of \<^verbatim>\<open>merged\<close> is replaced and no property is stored. The merge of
  the two objects has no such key, the later chunk overwrites nothing, and the
  output is \<^verbatim>\<open>{}\<close>.
\<close>

theorem proto_key_not_merged:
  "ex_parse ''{\"__proto__\":{\"x\":1}}'' = Some (JObj [(''__proto__'', JObj [(''x'', JNum 1)])])
   \<and> ex_parse ''{\"__proto__\":{\"y\":2}}'' = Some (JObj [(''__proto__'', JObj [(''y'', JNum 2)])])
   \<and> get_prop (mergeResults ex_parse [''{\"__proto__\":{\"x\":1}}'', ''{\"__proto__\":{\"y\":2}}''])
       ''__proto__'' \<noteq> JObj [(''y'', JNum 2)]
   \<and> combineChunkedResults ex_parse [''{\"__proto__\":{\"x\":1}}'', ''{\"__proto__\":{\"y\":2}}''] ''json''
       = ''{}''"
  by (simp add: ex_parse_def parse_table_def combineChunkedResults_def eval_merge eval_pretty)

text \<open>
  Claim C6, amended. For the \<^verbatim>\<open>json\<close> format the combiner parses each result and
  merges the parsed values into one object in order, and returns that object
  serialized with an indentation of 2. Under every key other than
  \<^verbatim>\<open>__proto__\<close> the merged object holds the last value assigned to the key, so
  a later chunk overwrites an overlapping key of an earlier one. For two results
  that parse to \<^verbatim>\<open>{a:1}\<close> and \<^verbatim>\<open>{b:2}\<close> the outcome is \<^verbatim>\<open>{a:1, b:2}\<close>. A
  result that fails to parse does not abort the merge: its raw text is assigned to
  the key \<^verbatim>\<open>chunk_i\<close> (\<open>i\<close> counted from 1) and stays there unless a later
  parsed result assigns to the same key. The key \<^verbatim>\<open>__proto__\<close> is the exception:
  an assignment to it replaces the prototype of the merged object instead of
  storing a property, so that the merged object has no key \<^verbatim>\<open>__proto__\<close> as
  long as no value assigned under that key is \<^verbatim>\<open>null\<close> or an object with an own
  key \<^verbatim>\<open>__proto__\<close>.
\<close>

theorem json_results_merged_in_order:
  "combineChunkedResults parse results ''json'' = JSON_stringify_pretty (mergeResults parse results)
   \<and> (\<forall>k. k \<noteq> ''__proto__'' \<longrightarrow>
          get_prop (mergeResults parse results) k =
            (case map_of (rev (mergeWrites parse results)) k of Some v \<Rightarrow> v | None \<Rightarrow> JUndefined))
   \<and> (\<forall>r1 r2. parse r1 = Some (JObj [(''a'', JNum 1)]) \<longrightarrow> parse r2 = Some (JObj [(''b'', JNum 2)]) \<longrightarrow>
          combineChunkedResults parse [r1, r2] ''json'' = ''{\<newline>  \"a\": 1,\<newline>  \"b\": 2\<newline>}'')
   \<and> (\<forall>r1 r2 kvs1 kvs2 k.
          parse r1 = Some (JObj kvs1) \<longrightarrow> parse r2 = Some (JObj kvs2) \<longrightarrow>
          k \<in> fst ` set kvs2 \<longrightarrow> k \<noteq> ''__proto__'' \<longrightarrow> distinct (map fst kvs2) \<longrightarrow>
          get_prop (mergeResults parse [r1, r2]) k = get_prop (JObj kvs2) k)
   \<and> (\<forall>i. i < length results \<longrightarrow> parse (results ! i) = None \<longrightarrow>
          (\<forall>j parsed. i < j \<longrightarrow> j < length results \<longrightarrow> parse (results ! j) = Some parsed \<longrightarrow>
             chunkKey i \<notin> fst ` set (enumerable_props parsed)) \<longrightarrow>
          get_prop (mergeResults parse results) (chunkKey i) = JStr (results ! i))
   \<and> ((\<forall>v. (''__proto__'', v) \<in> set (mergeWrites parse results) \<longrightarrow>
            v \<noteq> JNull \<and> (\<forall>q. v = JObj q \<longrightarrow> ''__proto__'' \<notin> fst ` set q)) \<longrightarrow>
        get_prop (mergeResults parse results) ''__proto__'' = JUndefined)"
proof (intro conjI allI impI)
  show "combineChunkedResults parse results ''json'' = JSON_stringify_pretty (mergeResults parse results)"
    by (simp add: combineChunkedResults_def)
next
  fix k :: string
  assume "k \<noteq> ''__proto__''"
  then show "get_prop (mergeResults parse results) k =
      (case map_of (rev (mergeWrites parse results)) k of Some v \<Rightarrow> v | None \<Rightarrow> JUndefined)"
    by (rule mergeResults_lookup)
next
  fix r1 r2
  assume "parse r1 = Some (JObj [(''a'', JNum 1)])" and "parse r2 = Some (JObj [(''b'', JNum 2)])"
  then show "combineChunkedResults parse [r1, r2] ''json'' = ''{\<newline>  \"a\": 1,\<newline>  \"b\": 2\<newline>}''"
    by (rule merge_a_b)
next
  fix r1 r2 kvs1 kvs2 k
  assume "parse r1 = Some (JObj kvs1)" and "parse r2 = Some (JObj kvs2)"
    and "k \<in> fst ` set kvs2" and "k \<noteq> ''__proto__''" and "distinct (map fst kvs2)"
  then show "get_prop (mergeResults parse [r1, r2]) k = get_prop (JObj kvs2) k"
    by (rule two_results_overwrite)
next
  fix i
  assume "i < length results" and "parse (results ! i) = None"
    and "\<forall>j parsed. i < j \<longrightarrow> j < length results \<longrightarrow> parse (results ! j) = Some parsed \<longrightarrow>
           chunkKey i \<notin> fst ` set (enumerable_props parsed)"
  then show "get_prop (mergeResults parse results) (chunkKey i) = JStr (results ! i)"
    by (intro fallback_key_kept) blast+
next
  assume "\<forall>v. (''__proto__'', v) \<in> set (mergeWrites parse results) \<longrightarrow>
            v \<noteq> JNull \<and> (\<forall>q. v = JObj q \<longrightarrow> ''__proto__'' \<notin> fst ` set q)"
  then show "get_prop (mergeResults parse results) ''__proto__'' = JUndefined"
    by (rule proto_key_absent)
qed

theorem json_results_merged_in_order_witness:
  "combineChunkedResults ex_parse [''{\"a\":1}'', ''{\"b\":2}''] ''json''
     = ''{\<newline>  \"a\": 1,\<newline>  \"b\": 2\<newline>}''
   \<and> get_prop (mergeResults ex_parse [''{\"a\":1}'', ''{\"a\":3,\"c\":4}'']) ''a'' = JNum 3
   \<and> get_prop (mergeResults ex_parse [''not json'']) ''chunk_1'' = JStr ''not json''
   \<and> get_prop (mergeResults ex_parse [''{\"a\":1}'', ''{\"__proto__\":{\"x\":1}}'']) ''__proto__''
       = JUndefined"
proof -
  have p1: "ex_parse ''{\"a\":1}'' = Some (JObj [(''a'', JNum 1)])"
    and p2: "ex_parse ''{\"b\":2}'' = Some (JObj [(''b'', JNum 2)])"
    and p3: "ex_parse ''{\"a\":3,\"c\":4}'' = Some (JObj [(''a'', JNum 3), (''c'', JNum 4)])"
    and p4: "ex_parse ''not json'' = None"
    and p5: "ex_parse ''{\"__proto__\":{\"x\":1}}'' = Some (JObj [(''__proto__'', JObj [(''x'', JNum 1)])])"
    by (simp_all add: ex_parse_def parse_table_def)
  note T = json_results_merged_in_order [of ex_parse]
  note example = T [of "[]", THEN conjunct2, THEN conjunct2, THEN conjunct1, rule_format]
  note overwrite = T [of "[]", THEN conjunct2, THEN conjunct2, THEN conjunct2, THEN conjunct1, rule_format]
  note fallback = T [of "[''not json'']", THEN conjunct2, THEN conjunct2, THEN conjunct2, THEN conjunct2,
      THEN conjunct1, rule_format]
  note proto = T [of "[''{\"a\":1}'', ''{\"__proto__\":{\"x\":1}}'']", THEN conjunct2, THEN conjunct2,
      THEN conjunct2, THEN conjunct2, THEN conjunct2, rule_format]
  have first: "combineChunkedResults ex_parse [''{\"a\":1}'', ''{\"b\":2}''] ''json''
      = ''{\<newline>  \"a\": 1,\<newline>  \"b\": 2\<newline>}''"
    using p1 p2 by (rule example)
  have "get_prop (mergeResults ex_parse [''{\"a\":1}'', ''{\"a\":3,\"c\":4}'']) ''a''
      = get_prop (JObj [(''a'', JNum 3), (''c'', JNum 4)]) ''a''"
    by (rule overwrite [OF p1 p3]) simp_all
  then have second: "get_prop (mergeResults ex_parse [''{\"a\":1}'', ''{\"a\":3,\"c\":4}'']) ''a'' = JNum 3"
    by simp
  have "get_prop (mergeResults ex_parse [''not json'']) (chunkKey 0) = JStr ([''not json''] ! 0)"
    by (rule fallback) (simp_all add: p4)
  then have third: "get_prop (mergeResults ex_parse [''not json'']) ''chunk_1'' = JStr ''not json''"
    by (simp add: chunkKey_def num_to_string.simps digit_char_def del: get_prop.simps)
  have writes: "mergeWrites ex_parse [''{\"a\":1}'', ''{\"__proto__\":{\"x\":1}}'']
      = [(''a'', JNum 1), (''__proto__'', JObj [(''x'', JNum 1)])]"
    by (simp add: mergeWrites_def resultWrites_def p1 p5 upt_rec)
  have fourth: "get_prop (mergeResults ex_parse [''{\"a\":1}'', ''{\"__proto__\":{\"x\":1}}'']) ''__proto__''
      = JUndefined"
    by (rule proto) (simp add: writes)
  from first second third fourth show ?thesis by blast
qed





lemma map_of_rev_distinct:
  assumes "distinct (map fst xs)"
  shows "map_of (rev xs) k = map_of xs k"
proof (cases "map_of xs k")
  case None
  then show ?thesis
    by (metis map_of_eq_None_iff set_rev)
next
  case (Some v)
  then have "(k, v) \<in> set (rev xs)"
    by (simp add: map_of_SomeD)
  moreover from assms have "distinct (map fst (rev xs))"
    by (simp add: rev_map [symmetric])
  ultimately have "map_of (rev xs) k = Some v"
    by (rule map_of_is_SomeI [rotated])
  with Some show ?thesis by simp
qed

lemma single_result_proto:
  assumes "parse r = Some (JObj kvs)" and "distinct (map fst kvs)"
  shows "get_prop (mergeResults parse [r]) ''__proto__'' = JUndefined"
proof -
  have "mergeWrites parse [r] = kvs"
    by (simp add: mergeWrites_def resultWrites_def assms(1))
  with assign_distinct_proto [OF assms(2)] show ?thesis
    by (simp add: mergeResults_writes)
qed

lemma single_result_equivalent:
  assumes "parse r = Some (JObj kvs)" and "distinct (map fst kvs)" and "k \<noteq> ''__proto__''"
  shows "get_prop (mergeResults parse [r]) k = get_prop (JObj kvs) k"
proof -
  have "mergeWrites parse [r] = kvs"
    by (simp add: mergeWrites_def resultWrites_def assms(1))
  then show ?thesis
    by (simp add: mergeResults_lookup [OF assms(3)] map_of_rev_distinct [OF assms(2)])
qed

text \<open>
  Claim C4 as stated fails: combining a single result is not the identity, the
  combined-output header is put in front of it.
\<close>

theorem single_result_gets_header:
  "combineChunkedResults (\<lambda>r. None) ['':root {}''] ''css'' \<noteq> '':root {}''"
  by (simp add: combineChunkedResults_def header_def)

text \<open>
  Claim C4, amended. For every target format other than \<^verbatim>\<open>tailwind\<close> and
  \<^verbatim>\<open>json\<close>, combining a single-element result list gives the combined-output
  header (with the count 1) followed by the result, unchanged and without a
  separator; for \<^verbatim>\<open>tailwind\<close> it gives the header followed by the outer
  configuration object around the one fragment; for \<^verbatim>\<open>json\<close> it gives the
  serialization of the merge of the one parsed result: when the result parses to
  an object, an object with the same value as the parsed object under every key
  other than \<^verbatim>\<open>__proto__\<close>, and without a key \<^verbatim>\<open>__proto__\<close> whether the
  parsed object has one or not (the assignment to that key replaces the prototype
  of the merged object and stores nothing).
\<close>

theorem combine_single_result:
  "(format \<noteq> ''tailwind'' \<longrightarrow> format \<noteq> ''json'' \<longrightarrow>
      combineChunkedResults parse [r] format = header 1 @ r)
   \<and> combineChunkedResults parse [r] ''tailwind'' = header 1 @ tailwindConfig 1 [tailwindFragment r]
   \<and> combineChunkedResults parse [r] ''json'' = JSON_stringify_pretty (mergeResults parse [r])
   \<and> (\<forall>kvs k. parse r = Some (JObj kvs) \<longrightarrow> distinct (map fst kvs) \<longrightarrow> k \<noteq> ''__proto__'' \<longrightarrow>
          get_prop (mergeResults parse [r]) k = get_prop (JObj kvs) k)
   \<and> (\<forall>kvs. parse r = Some (JObj kvs) \<longrightarrow> distinct (map fst kvs) \<longrightarrow>
          get_prop (mergeResults parse [r]) ''__proto__'' = JUndefined)
   \<and> header 1 = ''/* Design tokens generated from Figma - Combined from 1 chunks */\<newline>\<newline>''"
proof (intro conjI allI impI)
  assume "format \<noteq> ''tailwind''" and "format \<noteq> ''json''"
  then show "combineChunkedResults parse [r] format = header 1 @ r"
    by (simp add: combineChunkedResults_def)
next
  show "combineChunkedResults parse [r] ''tailwind'' = header 1 @ tailwindConfig 1 [tailwindFragment r]"
    by (simp add: combineChunkedResults_def tailwindConfig_def)
next
  show "combineChunkedResults parse [r] ''json'' = JSON_stringify_pretty (mergeResults parse [r])"
    by (simp add: combineChunkedResults_def)
next
  fix kvs k
  assume "parse r = Some (JObj kvs)" and "distinct (map fst kvs)" and "k \<noteq> ''__proto__''"
  then show "get_prop (mergeResults parse [r]) k = get_prop (JObj kvs) k"
    by (rule single_result_equivalent)
next
  fix kvs
  assume "parse r = Some (JObj kvs)" and "distinct (map fst kvs)"
  then show "get_prop (mergeResults parse [r]) ''__proto__'' = JUndefined"
    by (rule single_result_proto)
next
  show "header 1 = ''/* Design tokens generated from Figma - Combined from 1 chunks */\<newline>\<newline>''"
    by (simp add: header_def eval_json)
qed

theorem combine_single_result_witness:
  "combineChunkedResults ex_parse ['':root {}''] ''css''
     = ''/* Design tokens generated from Figma - Combined from 1 chunks */\<newline>\<newline>:root {}''
   \<and> get_prop (mergeResults ex_parse [''{\"a\":1}'']) ''a'' = JNum 1
   \<and> get_prop (mergeResults ex_parse [''{\"__proto__\":{\"y\":2}}'']) ''__proto__'' = JUndefined"
proof -
  note T = combine_single_result [of _ ex_parse]
  have "combineChunkedResults ex_parse ['':root {}''] ''css'' = header 1 @ '':root {}''"
    by (rule T [of "''css''", THEN conjunct1, rule_format]) simp_all
  moreover have "header 1 = ''/* Design tokens generated from Figma - Combined from 1 chunks */\<newline>\<newline>''"
    using T [of "''css''" "[]"] by blast
  ultimately have css: "combineChunkedResults ex_parse ['':root {}''] ''css''
     = ''/* Design tokens generated from Figma - Combined from 1 chunks */\<newline>\<newline>:root {}''"
    by simp
  have p1: "ex_parse ''{\"a\":1}'' = Some (JObj [(''a'', JNum 1)])"
    and p6: "ex_parse ''{\"__proto__\":{\"y\":2}}'' = Some (JObj [(''__proto__'', JObj [(''y'', JNum 2)])])"
    by (simp_all add: ex_parse_def parse_table_def)
  have "get_prop (mergeResults ex_parse [''{\"a\":1}'']) ''a'' = get_prop (JObj [(''a'', JNum 1)]) ''a''"
    by (rule T [of "''json''", THEN conjunct2, THEN conjunct2, THEN conjunct2, THEN conjunct1, rule_format,
          OF p1]) simp_all
  then have json: "get_prop (mergeResults ex_parse [''{\"a\":1}'']) ''a'' = JNum 1"
    by simp
  have proto: "get_prop (mergeResults ex_parse [''{\"__proto__\":{\"y\":2}}'']) ''__proto__'' = JUndefined"
    by (rule T [of "''json''", THEN conjunct2, THEN conjunct2, THEN conjunct2, THEN conjunct2,
          THEN conjunct1, rule_format, OF p6]) simp
  from css json proto show ?thesis by blast
qed

end
